theory Spec2Isabelle
  imports Main
begin

section \<open>The heart-disease ETL pipeline (pipeline.py)\<close>

text \<open>
  A shallow embedding of the class \<open>HeartDiseaseETL\<close> of \<open>pipeline.py\<close>: its methods
  \<open>extract\<close>, \<open>transform\<close>, \<open>load\<close> and \<open>run\<close>.  The methods work on pandas data frames;
  the embedding has two layers.

  \<^item> The library layer gives the pandas operations the pipeline calls as functions on
    data-frame values: \<open>drop_duplicates\<close>, \<open>replace\<close>, \<open>dropna\<close>, column selection and
    assignment, \<open>pd.to_numeric\<close>, \<open>pd.to_datetime(...).dt.strftime\<close>.  What pandas
    decides by parsing text (is this string a number, is it a date) is not fixed here:
    it is taken as a parameter, the record \<open>pandas\<close>, and every theorem holds for every
    such parser.
  \<^item> The program layer follows \<open>pipeline.py\<close> statement by statement over an explicit
    store of data-frame objects and a log: a method that returns a new frame allocates
    one, \<open>inplace=True\<close> and \<open>df[col] = ...\<close> update the object a variable refers to,
    \<open>try\<close>/\<open>except\<close> is a case distinction on a result of type \<open>error + 'a\<close>.
\<close>

subsection \<open>Strings: \<open>str(int)\<close>, \<open>str.lower\<close>, \<open>in\<close>\<close>

definition digit_char :: "nat \<Rightarrow> char" where
  "digit_char d = ''0123456789'' ! d"

function str_nat :: "nat \<Rightarrow> string" where
  "str_nat n = (if n < 10 then [digit_char n] else str_nat (n div 10) @ [digit_char (n mod 10)])"
  by pat_completeness auto
termination
  by (relation "measure id") auto

declare str_nat.simps [simp del]

definition str_int :: "int \<Rightarrow> string" where
  "str_int i = (if i < 0 then CHR ''-'' # str_nat (nat (- i)) else str_nat (nat i))"

text \<open>\<open>str.lower\<close> on the ASCII letters; every other character is kept.\<close>

definition lower_char :: "char \<Rightarrow> char" where
  "lower_char c =
     (case map_of (zip ''ABCDEFGHIJKLMNOPQRSTUVWXYZ'' ''abcdefghijklmnopqrstuvwxyz'') c of
        Some l \<Rightarrow> l
      | None \<Rightarrow> c)"

definition lower :: "string \<Rightarrow> string" where
  "lower s = map lower_char s"

text \<open>\<open>needle in haystack\<close> for strings: the needle occurs as a contiguous substring.\<close>

fun starts_with :: "'a list \<Rightarrow> 'a list \<Rightarrow> bool" where
  "starts_with [] s = True"
| "starts_with (p # ps) [] = False"
| "starts_with (p # ps) (c # cs) = (p = c \<and> starts_with ps cs)"

fun contains :: "'a list \<Rightarrow> 'a list \<Rightarrow> bool" where
  "contains p [] = (p = [])"
| "contains p (c # cs) = (starts_with p (c # cs) \<or> contains p cs)"

definition quoted :: "string \<Rightarrow> string" where
  "quoted s = CHR 0x27 # s @ [CHR 0x27]"

subsection \<open>Values, data frames, exceptions\<close>

text \<open>
  A cell is a Python string, a number, or a missing value (\<open>pd.NA\<close>, \<open>NaN\<close>, \<open>None\<close>).
  The type \<open>'n\<close> of numbers is left open: it stands for the values of Python's \<open>int\<close> and
  \<open>float\<close> up to \<open>==\<close>, so that equality of cells is value equality, as pandas uses it to
  compare rows.  A string never equals a number, and two missing values count as equal
  in \<open>drop_duplicates\<close>.
\<close>

datatype 'n cell = Str string | Num 'n | NA

text \<open>
  A column label is a string or, as in a frame built without column names, an integer;
  \<open>str_label\<close> is \<open>str(col)\<close>, as an f-string formats it, and \<open>repr_label\<close> is
  \<open>repr(col)\<close>.
\<close>

datatype label = Name string | Index int

fun str_label :: "label \<Rightarrow> string" where
  "str_label (Name s) = s"
| "str_label (Index i) = str_int i"

fun repr_label :: "label \<Rightarrow> string" where
  "repr_label (Name s) = quoted s"
| "repr_label (Index i) = str_int i"

fun is_name :: "label \<Rightarrow> bool" where
  "is_name (Name s) = True"
| "is_name (Index i) = False"

text \<open>
  A data frame: the column labels and the rows, each row holding one cell per column.
\<close>

record 'n dataframe =
  columns :: "label list"
  rows :: "'n cell list list"

text \<open>All column labels of the frame are strings.\<close>

definition string_labels :: "'n dataframe \<Rightarrow> bool" where
  "string_labels df \<longleftrightarrow> list_all is_name (columns df)"

text \<open>
  The exceptions of the model, instances of Python's \<open>Exception\<close>, each with its message
  (\<open>str(e)\<close>).
\<close>

datatype error =
    KeyError string
  | TypeError string
  | ValueError string
  | AttributeError string
  | OtherException string

fun str_error :: "error \<Rightarrow> string" where
  "str_error (KeyError m) = m"
| "str_error (TypeError m) = m"
| "str_error (ValueError m) = m"
| "str_error (AttributeError m) = m"
| "str_error (OtherException m) = m"

text \<open>Every row of a well-formed frame has one cell per column, and the labels are unique.\<close>

definition rectangular :: "'n dataframe \<Rightarrow> bool" where
  "rectangular df \<longleftrightarrow> list_all (\<lambda>r. length r = length (columns df)) (rows df)"

definition well_formed :: "'n dataframe \<Rightarrow> bool" where
  "well_formed df \<longleftrightarrow> distinct (columns df) \<and> rectangular df"

text \<open>\<open>df.shape[0]\<close>, \<open>df.shape[1]\<close> and \<open>df.empty\<close> (some axis has length 0).\<close>

definition shape0 :: "'n dataframe \<Rightarrow> nat" where
  "shape0 df = length (rows df)"

definition shape1 :: "'n dataframe \<Rightarrow> nat" where
  "shape1 df = length (columns df)"

definition empty_frame :: "'n dataframe \<Rightarrow> bool" where
  "empty_frame df \<longleftrightarrow> rows df = [] \<or> columns df = []"

text \<open>The cells of the column at position \<open>j\<close>.\<close>

definition column_at :: "nat \<Rightarrow> 'n dataframe \<Rightarrow> 'n cell list" where
  "column_at j df = map (\<lambda>r. r ! j) (rows df)"

subsection \<open>The pandas operations\<close>

text \<open>
  \<open>DataFrame.duplicated(keep='first')\<close>: the mask that is true at a row equal to an
  earlier one.  \<open>drop_duplicates\<close> returns the frame itself (as a copy) when it is empty,
  and the rows where the mask is false otherwise.
\<close>

fun duplicated :: "'a list \<Rightarrow> 'a list \<Rightarrow> bool list" where
  "duplicated seen [] = []"
| "duplicated seen (r # rs) = (r \<in> set seen) # duplicated (r # seen) rs"

definition unmasked :: "'a list \<Rightarrow> bool list \<Rightarrow> 'a list" where
  "unmasked rs flags = map fst (filter (\<lambda>(r, m). \<not> m) (zip rs flags))"

definition drop_duplicates :: "'n dataframe \<Rightarrow> 'n dataframe" where
  "drop_duplicates df =
     (if empty_frame df then df
      else df\<lparr>rows := unmasked (rows df) (duplicated [] (rows df))\<rparr>)"

text \<open>\<open>df.replace(to_replace, value)\<close>: every cell equal to \<open>to_replace\<close> becomes \<open>value\<close>.\<close>

definition replace :: "'n cell \<Rightarrow> 'n cell \<Rightarrow> 'n dataframe \<Rightarrow> 'n dataframe" where
  "replace to_replace v df =
     df\<lparr>rows := map (map (\<lambda>c. if c = to_replace then v else c)) (rows df)\<rparr>"

text \<open>\<open>df.dropna()\<close>: the rows without a missing value.\<close>

definition isna :: "'n cell \<Rightarrow> bool" where
  "isna c \<longleftrightarrow> c = NA"

definition dropna :: "'n dataframe \<Rightarrow> 'n dataframe" where
  "dropna df = df\<lparr>rows := filter (\<lambda>r. \<not> list_ex isna r) (rows df)\<rparr>"

text \<open>
  \<open>df[col]\<close>: a Series when the label occurs once, a DataFrame of the matching columns
  when it occurs several times, \<open>KeyError\<close> when it does not occur.
\<close>

datatype 'n selection = Series "'n cell list" | SubFrame "'n cell list list"

definition positions :: "label \<Rightarrow> label list \<Rightarrow> nat list" where
  "positions col cols = filter (\<lambda>j. cols ! j = col) [0..<length cols]"

definition getitem :: "'n dataframe \<Rightarrow> label \<Rightarrow> error + 'n selection" where
  "getitem df col =
     (case positions col (columns df) of
        [] \<Rightarrow> Inl (KeyError (repr_label col))
      | [j] \<Rightarrow> Inr (Series (column_at j df))
      | js \<Rightarrow> Inr (SubFrame (map (\<lambda>j. column_at j df) js)))"

text \<open>
  \<open>df[col] = values\<close>: the column is overwritten where the label exists and appended
  where it does not; values of another length than the frame are rejected.
\<close>

definition setitem :: "'n dataframe \<Rightarrow> label \<Rightarrow> 'n cell list \<Rightarrow> error + 'n dataframe" where
  "setitem df col vs =
     (if length vs \<noteq> length (rows df) then
        Inl (ValueError ''Length of values does not match length of index'')
      else if col \<in> set (columns df) then
        Inr (df\<lparr>rows := map (\<lambda>(r, v). fold (\<lambda>j r'. r'[j := v]) (positions col (columns df)) r)
                            (zip (rows df) vs)\<rparr>)
      else
        Inr (df\<lparr>columns := columns df @ [col],
                rows := map (\<lambda>(r, v). r @ [v]) (zip (rows df) vs)\<rparr>))"

text \<open>
  What the pipeline needs of pandas' parsers, both taken for a whole column.

  \<open>numeric_outcome vs\<close> is what \<open>pd.to_numeric\<close> (default \<open>errors='raise'\<close>) does on a
  Series with the values \<open>vs\<close>: it raises (\<open>Inl\<close>), or returns numbers, \<open>None\<close> standing
  for \<open>NaN\<close> (\<open>Converted\<close>), or hands the values back as they are without raising
  (\<open>Unconverted\<close>), as pandas does for text that mixes a value above the \<open>int64\<close> range
  with a negative one.

  \<open>to_datetime vs\<close> is \<open>pd.to_datetime(vs, errors='coerce')\<close> followed by the \<open>.dt\<close>
  accessor, reduced to the calendar date of each value: \<open>None\<close> is \<open>NaT\<close>, and \<open>Inl\<close> is
  an exception raised for the column as a whole.
\<close>

record date =
  year :: nat
  month :: nat
  day :: nat

datatype 'n conversion = Unconverted | Converted "'n option list"

record 'n pandas =
  numeric_outcome :: "'n cell list \<Rightarrow> error + 'n conversion"
  to_datetime :: "'n cell list \<Rightarrow> error + date option list"

text \<open>
  \<open>pd.to_numeric(arg)\<close>: the Series pandas returns for a Series, \<open>TypeError\<close> for a
  DataFrame.
\<close>

definition numeric_cell :: "'n option \<Rightarrow> 'n cell" where
  "numeric_cell x = (case x of None \<Rightarrow> NA | Some n \<Rightarrow> Num n)"

definition to_numeric :: "'n pandas \<Rightarrow> 'n selection \<Rightarrow> error + 'n cell list" where
  "to_numeric pd arg =
     (case arg of
        Series vs \<Rightarrow>
          (case numeric_outcome pd vs of
             Inl e \<Rightarrow> Inl e
           | Inr Unconverted \<Rightarrow> Inr vs
           | Inr (Converted xs) \<Rightarrow> Inr (map numeric_cell xs))
      | SubFrame _ \<Rightarrow> Inl (TypeError ''arg must be a list, tuple, 1-d array, or Series''))"

text \<open>\<open>strftime('%Y-%m-%d')\<close>; \<open>NaT\<close> formats to a missing value.\<close>

definition pad2 :: "nat \<Rightarrow> string" where
  "pad2 n = (if n < 10 then CHR ''0'' # str_nat n else str_nat n)"

definition strftime :: "date \<Rightarrow> string" where
  "strftime d = str_nat (year d) @ ''-'' @ pad2 (month d) @ ''-'' @ pad2 (day d)"

definition strftime_cell :: "date option \<Rightarrow> 'n cell" where
  "strftime_cell d = (case d of None \<Rightarrow> NA | Some d' \<Rightarrow> Str (strftime d'))"

definition to_datetime_strftime :: "'n pandas \<Rightarrow> 'n selection \<Rightarrow> error + 'n cell list" where
  "to_datetime_strftime pd arg =
     (case arg of
        Series vs \<Rightarrow>
          (case to_datetime pd vs of Inl e \<Rightarrow> Inl e | Inr ds \<Rightarrow> Inr (map strftime_cell ds))
      | SubFrame _ \<Rightarrow> Inl (ValueError ''cannot assemble with duplicate keys''))"

subsection \<open>The program state: a store of frames and the log\<close>

datatype level = INFO | WARNING | ERROR

record 'n state =
  heap :: "nat \<Rightarrow> 'n dataframe"
  next_id :: nat
  logged :: "(level \<times> string) list"

definition logging :: "level \<Rightarrow> string \<Rightarrow> 'n state \<Rightarrow> 'n state" where
  "logging lv msg st = st\<lparr>logged := logged st @ [(lv, msg)]\<rparr>"

text \<open>A new frame object; the reference to it is returned with the state.\<close>

definition alloc :: "'n dataframe \<Rightarrow> 'n state \<Rightarrow> nat \<times> 'n state" where
  "alloc df st = (next_id st, st\<lparr>heap := (heap st)(next_id st := df), next_id := Suc (next_id st)\<rparr>)"

text \<open>An update of the object behind a reference.\<close>

definition store :: "nat \<Rightarrow> 'n dataframe \<Rightarrow> 'n state \<Rightarrow> 'n state" where
  "store ref df st = st\<lparr>heap := (heap st)(ref := df)\<rparr>"

text \<open>\<open>try: body except Exception as e: handler\<close>, and a \<open>for\<close> loop.\<close>

definition try_except ::
  "('s \<Rightarrow> error + 's) \<Rightarrow> (error \<Rightarrow> 's \<Rightarrow> error + 's) \<Rightarrow> 's \<Rightarrow> error + 's" where
  "try_except body handler st =
     (case body st of Inl e \<Rightarrow> handler e st | Inr st' \<Rightarrow> Inr st')"

fun for_each :: "('a \<Rightarrow> 's \<Rightarrow> error + 's) \<Rightarrow> 'a list \<Rightarrow> 's \<Rightarrow> error + 's" where
  "for_each body [] st = Inr st"
| "for_each body (x # xs) st =
     (case body x st of Inl e \<Rightarrow> Inl e | Inr st' \<Rightarrow> for_each body xs st')"

subsection \<open>\<open>HeartDiseaseETL\<close>\<close>

record etl =
  db_uri :: string
  table_name :: string
  data_id :: int

text \<open>
  The services outside the process: the dataset repository (\<open>fetch_ucirepo(id).data.original\<close>)
  and the database, whose state has the open type \<open>'w\<close>.  \<open>to_sql\<close> is
  \<open>df.to_sql(table_name, engine, if_exists="replace", index=False)\<close>: it returns the
  database after the call and the exception, if one was raised.
\<close>

record ('n, 'e, 'w) services =
  fetch_ucirepo :: "int \<Rightarrow> error + 'n dataframe"
  create_engine :: "string \<Rightarrow> error + 'e"
  to_sql :: "'n dataframe \<Rightarrow> string \<Rightarrow> 'e \<Rightarrow> 'w \<Rightarrow> error option \<times> 'w"

text \<open>\<open>extract\<close>, under the name \<open>extract_dataset\<close>.\<close>

definition extract_dataset ::
  "etl \<Rightarrow> ('n, 'e, 'w) services \<Rightarrow> 'n state \<Rightarrow> error + (nat \<times> 'n state)" where
  "extract_dataset self sv st0 =
     (let st1 = logging INFO ''Extracting data from UCI repository...'' st0 in
      case fetch_ucirepo sv (data_id self) of
        Inl e \<Rightarrow> Inl e
      | Inr original \<Rightarrow>
          (let (df, st2) = alloc original st1;
               st3 = logging INFO (''Extracted '' @ str_nat (shape0 (heap st2 df)) @ '' rows and ''
                       @ str_nat (shape1 (heap st2 df)) @ '' columns.'') st2
           in Inr (df, st3)))"

text \<open>
  The body of the first loop of \<open>transform\<close>, \<open>df[col] = pd.to_numeric(df[col])\<close>, as a
  function of the frame \<open>df\<close> refers to, and the loop's \<open>try\<close> statement.
\<close>

definition convert_numeric :: "'n pandas \<Rightarrow> 'n dataframe \<Rightarrow> label \<Rightarrow> error + 'n dataframe" where
  "convert_numeric pd df col =
     (case getitem df col of
        Inl e \<Rightarrow> Inl e
      | Inr s \<Rightarrow> (case to_numeric pd s of Inl e \<Rightarrow> Inl e | Inr vs \<Rightarrow> setitem df col vs))"

definition numeric_step :: "'n pandas \<Rightarrow> nat \<Rightarrow> label \<Rightarrow> 'n state \<Rightarrow> error + 'n state" where
  "numeric_step pd df col =
     try_except
       (\<lambda>st. case convert_numeric pd (heap st df) col of
                Inl e \<Rightarrow> Inl e
              | Inr df' \<Rightarrow> Inr (store df df' st))
       (\<lambda>e st. Inr (logging WARNING
                 (''Column '' @ quoted (str_label col)
                    @ '' could not be converted to numeric. Skipping.'') st))"

text \<open>
  The body of the second loop,
  \<open>df[col] = pd.to_datetime(df[col], errors='coerce').dt.strftime('%Y-%m-%d')\<close>.
\<close>

definition convert_date :: "'n pandas \<Rightarrow> 'n dataframe \<Rightarrow> label \<Rightarrow> error + 'n dataframe" where
  "convert_date pd df col =
     (case getitem df col of
        Inl e \<Rightarrow> Inl e
      | Inr s \<Rightarrow> (case to_datetime_strftime pd s of Inl e \<Rightarrow> Inl e | Inr vs \<Rightarrow> setitem df col vs))"

definition date_step :: "'n pandas \<Rightarrow> nat \<Rightarrow> label \<Rightarrow> 'n state \<Rightarrow> error + 'n state" where
  "date_step pd df col =
     try_except
       (\<lambda>st. case convert_date pd (heap st df) col of
                Inl e \<Rightarrow> Inl e
              | Inr df' \<Rightarrow>
                  Inr (logging INFO (''Standardized date column '' @ quoted (str_label col) @ ''.'')
                        (store df df' st)))
       (\<lambda>e st. Inr (logging WARNING
                 (''Could not standardize '' @ quoted (str_label col) @ '' to date format: ''
                    @ str_error e) st))"

text \<open>
  \<open>'date' in col.lower()\<close>: a label that is not a string has no method \<open>lower\<close>.  The list
  comprehension \<open>[col for col in df.columns if 'date' in col.lower()]\<close> evaluates the test
  for every label, in order, and stands outside the \<open>try\<close> statements of both loops.
\<close>

fun date_in_lower :: "label \<Rightarrow> error + bool" where
  "date_in_lower (Name s) = Inr (contains ''date'' (lower s))"
| "date_in_lower (Index i) =
     Inl (AttributeError (quoted ''int'' @ '' object has no attribute '' @ quoted ''lower''))"

fun date_columns :: "label list \<Rightarrow> error + label list" where
  "date_columns [] = Inr []"
| "date_columns (col # cols) =
     (case date_in_lower col of
        Inl e \<Rightarrow> Inl e
      | Inr b \<Rightarrow>
          (case date_columns cols of
             Inl e \<Rightarrow> Inl e
           | Inr ds \<Rightarrow> Inr (if b then col # ds else ds)))"

text \<open>The labels the comprehension selects, when it returns.\<close>

fun is_date_col :: "label \<Rightarrow> bool" where
  "is_date_col (Name s) = contains ''date'' (lower s)"
| "is_date_col (Index i) = False"

text \<open>
  \<open>transform\<close>.  The variable \<open>df\<close> of the source is rebound twice: \<open>df0\<close> is the caller's
  frame, \<open>df1\<close> the result of \<open>drop_duplicates()\<close>, \<open>df2\<close> the result of \<open>dropna()\<close>.
  An exception leaves the method with the error alone: no caller in \<open>pipeline.py\<close> handles
  it, so the state reached at that point is not part of the result.
\<close>

definition transform :: "'n pandas \<Rightarrow> nat \<Rightarrow> 'n state \<Rightarrow> error + (nat \<times> 'n state)" where
  "transform pd df0 st0 =
     (let st1 = logging INFO ''Transforming data...'' st0;
          initial_rows = shape0 (heap st1 df0);
          (df1, st2) = alloc (drop_duplicates (heap st1 df0)) st1;
          st3 = logging INFO (''Removed '' @ str_int (int initial_rows - int (shape0 (heap st2 df1)))
                  @ '' duplicate rows.'') st2;
          st4 = store df1 (replace (Str ''?'') NA (heap st3 df1)) st3;
          (df2, st5) = alloc (dropna (heap st4 df1)) st4;
          st6 = logging INFO (''Removed rows with missing values, remaining: ''
                  @ str_nat (shape0 (heap st5 df2)) @ '' rows.'') st5
      in case for_each (numeric_step pd df2) (columns (heap st6 df2)) st6 of
           Inl e \<Rightarrow> Inl e
         | Inr st7 \<Rightarrow>
             (case date_columns (columns (heap st7 df2)) of
                Inl e \<Rightarrow> Inl e
              | Inr date_cols \<Rightarrow>
                  (case for_each (date_step pd df2) date_cols st7 of
                     Inl e \<Rightarrow> Inl e
                   | Inr st8 \<Rightarrow> Inr (df2, st8))))"

text \<open>
  \<open>load\<close>: the whole body after the first log line is one \<open>try\<close> block, whose handler
  logs the exception.
\<close>

definition load ::
  "etl \<Rightarrow> ('n, 'e, 'w) services \<Rightarrow> nat \<Rightarrow> 'n state \<Rightarrow> 'w \<Rightarrow> error + ('n state \<times> 'w)" where
  "load self sv df st0 w =
     (let st1 = logging INFO ''Loading data into PostgreSQL...'' st0 in
      case create_engine sv (db_uri self) of
        Inl e \<Rightarrow>
          Inr (logging ERROR (''Failed to load data into PostgreSQL: '' @ str_error e) st1, w)
      | Inr engine \<Rightarrow>
          (case to_sql sv (heap st1 df) (table_name self) engine w of
             (Some e, w') \<Rightarrow>
               Inr (logging ERROR (''Failed to load data into PostgreSQL: '' @ str_error e) st1, w')
           | (None, w') \<Rightarrow>
               Inr (logging INFO (''Data successfully loaded into table '' @ quoted (table_name self)
                      @ ''.'') st1, w')))"

definition run ::
  "etl \<Rightarrow> 'n pandas \<Rightarrow> ('n, 'e, 'w) services \<Rightarrow> 'n state \<Rightarrow> 'w \<Rightarrow> error + ('n state \<times> 'w)" where
  "run self pd sv st0 w =
     (let st1 = logging INFO ''Starting ETL pipeline.'' st0 in
      case extract_dataset self sv st1 of
        Inl e \<Rightarrow> Inl e
      | Inr (raw_df, st2) \<Rightarrow>
          (case transform pd raw_df st2 of
             Inl e \<Rightarrow> Inl e
           | Inr (cleaned_df, st3) \<Rightarrow>
               (case load self sv cleaned_df st3 w of
                  Inl e \<Rightarrow> Inl e
                | Inr (st4, w') \<Rightarrow>
                    Inr (logging INFO ''ETL pipeline completed successfully.'' st4, w'))))"

subsection \<open>The five cleaning steps as functions on frames\<close>

text \<open>
  Steps 1 to 3 are \<open>drop_duplicates\<close>, \<open>replace (Str ''?'') NA\<close> and \<open>dropna\<close>.  Steps 4
  and 5 are the two loops: a column whose conversion raises is left as it is.
\<close>

definition coerce_column :: "'n pandas \<Rightarrow> label \<Rightarrow> 'n dataframe \<Rightarrow> 'n dataframe" where
  "coerce_column pd col df = (case convert_numeric pd df col of Inl e \<Rightarrow> df | Inr df' \<Rightarrow> df')"

definition numeric_coercion :: "'n pandas \<Rightarrow> 'n dataframe \<Rightarrow> 'n dataframe" where
  "numeric_coercion pd df = fold (coerce_column pd) (columns df) df"

definition normalize_column :: "'n pandas \<Rightarrow> label \<Rightarrow> 'n dataframe \<Rightarrow> 'n dataframe" where
  "normalize_column pd col df = (case convert_date pd df col of Inl e \<Rightarrow> df | Inr df' \<Rightarrow> df')"

definition date_normalization :: "'n pandas \<Rightarrow> 'n dataframe \<Rightarrow> 'n dataframe" where
  "date_normalization pd df = fold (normalize_column pd) (filter is_date_col (columns df)) df"

definition drop_missing :: "'n dataframe \<Rightarrow> 'n dataframe" where
  "drop_missing df = dropna (replace (Str ''?'') NA (drop_duplicates df))"

definition cleaned :: "'n pandas \<Rightarrow> 'n dataframe \<Rightarrow> 'n dataframe" where
  "cleaned pd df = date_normalization pd (numeric_coercion pd (drop_missing df))"

subsection \<open>The five steps in the spec's words\<close>

text \<open>
  Step 1: a row equal to an earlier row is removed, the first occurrence is kept and the
  order of the rows is preserved.  (A table without columns is left as it is, as pandas
  does.)
\<close>

fun first_occurrences :: "'a list \<Rightarrow> 'a list \<Rightarrow> 'a list" where
  "first_occurrences seen [] = []"
| "first_occurrences seen (r # rs) =
     (if r \<in> set seen then first_occurrences seen rs else r # first_occurrences (r # seen) rs)"

definition spec_deduplicate :: "'n dataframe \<Rightarrow> 'n dataframe" where
  "spec_deduplicate df =
     (if columns df = [] then df else df\<lparr>rows := first_occurrences [] (rows df)\<rparr>)"

text \<open>Step 2: every cell equal to the string \<open>"?"\<close> becomes a missing marker.\<close>

definition spec_mark_missing :: "'n dataframe \<Rightarrow> 'n dataframe" where
  "spec_mark_missing df =
     df\<lparr>rows := map (map (\<lambda>c. if c = Str ''?'' then NA else c)) (rows df)\<rparr>"

text \<open>Step 3: every row with a missing marker in some column is removed.\<close>

definition spec_drop_missing :: "'n dataframe \<Rightarrow> 'n dataframe" where
  "spec_drop_missing df = df\<lparr>rows := filter (\<lambda>r. NA \<notin> set r) (rows df)\<rparr>"

text \<open>
  Steps 4 and 5 work column by column: \<open>with_columns f df\<close> is the frame whose column at
  position \<open>j\<close> is \<open>f j\<close>.  In step 4 a column is replaced by the numbers pandas converts
  it to, and is left as it is otherwise.  In step 5 a column whose lower-cased name
  contains \<open>date\<close> is replaced, value by value, by the date formatted \<open>%Y-%m-%d\<close> or by a
  missing marker where no date was read; it is left as it is when the conversion fails
  as a whole, and so is every other column.
\<close>

definition with_columns :: "(nat \<Rightarrow> 'n cell list) \<Rightarrow> 'n dataframe \<Rightarrow> 'n dataframe" where
  "with_columns f df =
     df\<lparr>rows := map (\<lambda>i. map (\<lambda>j. f j ! i) [0..<length (columns df)]) [0..<length (rows df)]\<rparr>"

definition coerced :: "'n pandas \<Rightarrow> 'n cell list \<Rightarrow> 'n cell list" where
  "coerced pd vs =
     (case numeric_outcome pd vs of
        Inl e \<Rightarrow> vs
      | Inr Unconverted \<Rightarrow> vs
      | Inr (Converted xs) \<Rightarrow>
          if length xs = length vs then map (\<lambda>x. case x of None \<Rightarrow> NA | Some n \<Rightarrow> Num n) xs
          else vs)"

definition normalized :: "'n pandas \<Rightarrow> 'n cell list \<Rightarrow> 'n cell list" where
  "normalized pd vs =
     (case to_datetime pd vs of
        Inl e \<Rightarrow> vs
      | Inr ds \<Rightarrow>
          if length ds = length vs
          then map (\<lambda>d. case d of None \<Rightarrow> NA | Some d' \<Rightarrow> Str (strftime d')) ds
          else vs)"

definition spec_coerce_numeric :: "'n pandas \<Rightarrow> 'n dataframe \<Rightarrow> 'n dataframe" where
  "spec_coerce_numeric pd df = with_columns (\<lambda>j. coerced pd (column_at j df)) df"

definition spec_normalize_dates :: "'n pandas \<Rightarrow> 'n dataframe \<Rightarrow> 'n dataframe" where
  "spec_normalize_dates pd df =
     with_columns
       (\<lambda>j. if is_date_col (columns df ! j) then normalized pd (column_at j df)
            else column_at j df) df"

subsection \<open>Stand-ins for the parsers, for evaluation on examples\<close>

text \<open>
  A stand-in for \<open>pd.to_numeric\<close> on columns of decimal integer literals (an optional
  minus sign, then digits), numbers and empty strings: an empty string is read as \<open>NaN\<close>,
  any other text raises, and a column with a value above the \<open>int64\<close> range beside a
  negative or missing one is handed back unconverted.  A stand-in for \<open>pd.to_datetime\<close>
  that reads dates written \<open>YYYY-MM-DD\<close> and nothing else.  They agree with pandas on the
  cells of the examples below, and are used on nothing else.
\<close>

definition digit_value :: "char \<Rightarrow> int option" where
  "digit_value c = map_of (zip ''0123456789'' [0, 1, 2, 3, 4, 5, 6, 7, 8, 9]) c"

fun digits_value :: "int \<Rightarrow> string \<Rightarrow> int option" where
  "digits_value acc [] = Some acc"
| "digits_value acc (c # cs) =
     (case digit_value c of None \<Rightarrow> None | Some d \<Rightarrow> digits_value (10 * acc + d) cs)"

definition decimal_literal :: "string \<Rightarrow> int option" where
  "decimal_literal s =
     (case s of
        [] \<Rightarrow> None
      | c # cs \<Rightarrow>
          (if c = CHR ''-'' \<and> cs \<noteq> [] then map_option uminus (digits_value 0 cs)
           else digits_value 0 (c # cs)))"

definition cell_number :: "int cell \<Rightarrow> int option option" where
  "cell_number c =
     (case c of
        Num n \<Rightarrow> Some (Some n)
      | NA \<Rightarrow> Some None
      | Str s \<Rightarrow> (if s = [] then Some None else map_option Some (decimal_literal s)))"

fun cell_numbers :: "int cell list \<Rightarrow> int option list option" where
  "cell_numbers [] = Some []"
| "cell_numbers (c # cs) =
     (case cell_number c of
        None \<Rightarrow> None
      | Some x \<Rightarrow> map_option ((#) x) (cell_numbers cs))"

definition uint64_conflict :: "int option list \<Rightarrow> bool" where
  "uint64_conflict xs \<longleftrightarrow>
     list_ex (\<lambda>x. case x of None \<Rightarrow> False | Some n \<Rightarrow> 9223372036854775807 < n) xs \<and>
     list_ex (\<lambda>x. case x of None \<Rightarrow> True | Some n \<Rightarrow> n < 0) xs"

definition example_numeric_outcome :: "int cell list \<Rightarrow> error + int conversion" where
  "example_numeric_outcome vs =
     (case cell_numbers vs of
        None \<Rightarrow> Inl (ValueError ''Unable to parse string'')
      | Some xs \<Rightarrow> if uint64_conflict xs then Inr Unconverted else Inr (Converted xs))"

definition iso_date :: "int cell \<Rightarrow> date option" where
  "iso_date c =
     (case c of
        Str [y1, y2, y3, y4, d1, m1, m2, d2, t1, t2] \<Rightarrow>
          (if d1 = CHR ''-'' \<and> d2 = CHR ''-'' then
             (case (digits_value 0 [y1, y2, y3, y4], digits_value 0 [m1, m2], digits_value 0 [t1, t2]) of
                (Some y, Some m, Some d) \<Rightarrow>
                  (if 1 \<le> m \<and> m \<le> 12 \<and> 1 \<le> d \<and> d \<le> 31
                   then Some \<lparr>year = nat y, month = nat m, day = nat d\<rparr>
                   else None)
              | _ \<Rightarrow> None)
           else None)
      | _ \<Rightarrow> None)"

definition example_pandas :: "int pandas" where
  "example_pandas =
     \<lparr>numeric_outcome = example_numeric_outcome, to_datetime = (\<lambda>vs. Inr (map iso_date vs))\<rparr>"

definition initial_state :: "int dataframe \<Rightarrow> int state" where
  "initial_state df =
     \<lparr>heap = (\<lambda>_. \<lparr>columns = [], rows = []\<rparr>)(0 := df), next_id = 1, logged = []\<rparr>"

text \<open>The sample of \<open>unittest.py\<close> (\<open>setUp\<close>).\<close>

definition sample_data :: "int dataframe" where
  "sample_data =
     \<lparr>columns = [Name ''age'', Name ''sex'', Name ''cp'', Name ''chol''],
      rows = [[Str ''29'', Num 1, Num 0, Num 240],
              [Str ''45'', Num 0, Num 1, Str ''?''],
              [Str ''?'', Num 1, Num 2, Num 200],
              [Str ''60'', Num 1, Num 3, Num 190]]\<rparr>"

subsection \<open>Definitions used in the statements and proofs\<close>

text \<open>
  The result of \<open>transform\<close> as a frame, the frame behind the returned reference, and the
  log after the call.
\<close>

definition output_frame :: "error + (nat \<times> 'n state) \<Rightarrow> error + 'n dataframe" where
  "output_frame res = (case res of Inl e \<Rightarrow> Inl e | Inr (r, st) \<Rightarrow> Inr (heap st r))"


text \<open>
  The log lines the two loops write, as functions of the frame they start from: one
  iteration's lines, then the lines of the remaining iterations on the updated frame.
\<close>

definition numeric_warning :: "label \<Rightarrow> level \<times> string" where
  "numeric_warning col =
     (WARNING, ''Column '' @ quoted (str_label col) @ '' could not be converted to numeric. Skipping.'')"

definition numeric_log1 :: "'n pandas \<Rightarrow> label \<Rightarrow> 'n dataframe \<Rightarrow> (level \<times> string) list" where
  "numeric_log1 pd col df =
     (case convert_numeric pd df col of Inl e \<Rightarrow> [numeric_warning col] | Inr df' \<Rightarrow> [])"

fun numeric_log :: "'n pandas \<Rightarrow> label list \<Rightarrow> 'n dataframe \<Rightarrow> (level \<times> string) list" where
  "numeric_log pd [] df = []"
| "numeric_log pd (col # cs) df = numeric_log1 pd col df @ numeric_log pd cs (coerce_column pd col df)"

definition date_log1 :: "'n pandas \<Rightarrow> label \<Rightarrow> 'n dataframe \<Rightarrow> (level \<times> string) list" where
  "date_log1 pd col df =
     (case convert_date pd df col of
        Inl e \<Rightarrow> [(WARNING, ''Could not standardize '' @ quoted (str_label col)
                     @ '' to date format: '' @ str_error e)]
      | Inr df' \<Rightarrow> [(INFO, ''Standardized date column '' @ quoted (str_label col) @ ''.'')])"

fun date_log :: "'n pandas \<Rightarrow> label list \<Rightarrow> 'n dataframe \<Rightarrow> (level \<times> string) list" where
  "date_log pd [] df = []"
| "date_log pd (col # cs) df = date_log1 pd col df @ date_log pd cs (normalize_column pd col df)"

text \<open>
  Everything one call of \<open>transform\<close> logs when it returns, in order.
\<close>

definition transform_log :: "'n pandas \<Rightarrow> 'n dataframe \<Rightarrow> (level \<times> string) list" where
  "transform_log pd df =
     [(INFO, ''Transforming data...''),
      (INFO, ''Removed '' @ str_int (int (shape0 df) - int (shape0 (drop_duplicates df))) @ '' duplicate rows.''),
      (INFO, ''Removed rows with missing values, remaining: '' @ str_nat (shape0 (drop_missing df)) @ '' rows.'')]
     @ numeric_log pd (columns df) (drop_missing df)
     @ date_log pd (filter is_date_col (columns df)) (numeric_coercion pd (drop_missing df))"

text \<open>
  No cell of the frame is the string \<open>"?"\<close>.
\<close>

definition sentinel_free :: "'n dataframe \<Rightarrow> bool" where
  "sentinel_free df \<longleftrightarrow> (\<forall>r \<in> set (rows df). Str ''?'' \<notin> set r)"

text \<open>
  On a frame with unique labels, \<open>df[col] = vs\<close> overwrites position \<open>j\<close> of every row.
  \<open>numeric_raises\<close>: the first loop's body raises on a column with these values.
\<close>

definition assign :: "nat \<Rightarrow> 'n cell list \<Rightarrow> 'n dataframe \<Rightarrow> 'n dataframe" where
  "assign j vs df = df\<lparr>rows := map (\<lambda>(r, v). r[j := v]) (zip (rows df) vs)\<rparr>"


subsection \<open>Example inputs\<close>

text \<open>
  A table with a repeated row, a \<open>"?"\<close>, a numeric column and a date column; a table with a
  text column; a table with a date column; a table of text that mixes a value above the
  \<open>int64\<close> range with a negative one; the frame \<open>pd.DataFrame([[1, 2], [3, 4]])\<close>, whose
  column labels are the integers 0 and 1; the configuration of the \<open>__main__\<close> block; and a
  database that refuses the connection.
\<close>

definition visit_records :: "int dataframe" where
  "visit_records =
     \<lparr>columns = [Name ''age'', Name ''visit_date''],
      rows = [[Str ''29'', Str ''2020-01-15''],
              [Str ''45'', Str ''?''],
              [Str ''29'', Str ''2020-01-15''],
              [Str ''60'', Str ''bad'']]\<rparr>"


definition visits_data :: "int dataframe" where
  "visits_data =
     \<lparr>columns = [Name ''Visit_DATE'', Name ''age''],
      rows = [[Str ''2020-01-15'', Str ''29''], [Str ''bad'', Str ''31'']]\<rparr>"


definition unnamed_columns :: "int dataframe" where
  "unnamed_columns = \<lparr>columns = [Index 0, Index 1], rows = [[Num 1, Num 2], [Num 3, Num 4]]\<rparr>"

definition main_etl :: etl where
  "main_etl = \<lparr>db_uri = ''postgresql://postgres:postgres@db:5432/heartdiseasedb'',
                table_name = ''heart_disease'', data_id = 45\<rparr>"

definition unreachable_database :: "(int, unit, unit) services" where
  "unreachable_database =
     \<lparr>fetch_ucirepo = (\<lambda>i. Inr sample_data),
      create_engine = (\<lambda>uri. Inl (OtherException ''connection refused'')),
      to_sql = (\<lambda>df name engine w. (None, w))\<rparr>"

section \<open>Properties of the operations and of the loops\<close>

subsection \<open>Column labels\<close>

lemma columns_drop_duplicates [simp]: "columns (drop_duplicates df) = columns df"
  by (simp add: drop_duplicates_def)

lemma columns_replace [simp]: "columns (replace a b df) = columns df"
  by (simp add: replace_def)

lemma columns_dropna [simp]: "columns (dropna df) = columns df"
  by (simp add: dropna_def)

lemma columns_drop_missing [simp]: "columns (drop_missing df) = columns df"
  by (simp add: drop_missing_def)

lemma positions_empty_iff: "positions col cols = [] \<longleftrightarrow> col \<notin> set cols"
  by (auto simp: positions_def filter_empty_conv in_set_conv_nth)

lemma getitem_Inr_member: "getitem df col = Inr s \<Longrightarrow> col \<in> set (columns df)"
  by (cases "positions col (columns df) = []") (auto simp: getitem_def positions_empty_iff)

lemma setitem_columns: "col \<in> set (columns df) \<Longrightarrow> setitem df col vs = Inr df' \<Longrightarrow> columns df' = columns df"
  by (auto simp: setitem_def split: if_splits)

lemma setitem_shape0: "setitem df col vs = Inr df' \<Longrightarrow> length (rows df') = length (rows df)"
  by (auto simp: setitem_def split: if_splits)

lemma convert_numeric_columns: "convert_numeric pd df col = Inr df' \<Longrightarrow> columns df' = columns df"
  by (auto simp: convert_numeric_def split: sum.splits dest: getitem_Inr_member setitem_columns)

lemma convert_date_columns: "convert_date pd df col = Inr df' \<Longrightarrow> columns df' = columns df"
  by (auto simp: convert_date_def split: sum.splits dest: getitem_Inr_member setitem_columns)

lemma columns_coerce_column [simp]: "columns (coerce_column pd col df) = columns df"
  by (auto simp: coerce_column_def split: sum.splits dest: convert_numeric_columns)

lemma columns_normalize_column [simp]: "columns (normalize_column pd col df) = columns df"
  by (auto simp: normalize_column_def split: sum.splits dest: convert_date_columns)

lemma columns_fold_coerce [simp]: "columns (fold (coerce_column pd) cs df) = columns df"
  by (induction cs arbitrary: df) auto

lemma columns_fold_normalize [simp]: "columns (fold (normalize_column pd) cs df) = columns df"
  by (induction cs arbitrary: df) auto

lemma columns_numeric_coercion [simp]: "columns (numeric_coercion pd df) = columns df"
  by (simp add: numeric_coercion_def)

lemma columns_date_normalization [simp]: "columns (date_normalization pd df) = columns df"
  by (simp add: date_normalization_def)

lemma columns_cleaned [simp]: "columns (cleaned pd df) = columns df"
  by (simp add: cleaned_def)

subsection \<open>The loops of \<open>transform\<close> as folds over the frame\<close>

lemma numeric_step_eq:
  "numeric_step pd r c st =
     Inr (st\<lparr>heap := (heap st)(r := coerce_column pd c (heap st r)),
             logged := logged st @ numeric_log1 pd c (heap st r)\<rparr>)"
  by (cases "convert_numeric pd (heap st r) c")
     (simp_all add: numeric_step_def try_except_def logging_def store_def coerce_column_def
        numeric_log1_def numeric_warning_def)

lemma date_step_eq:
  "date_step pd r c st =
     Inr (st\<lparr>heap := (heap st)(r := normalize_column pd c (heap st r)),
             logged := logged st @ date_log1 pd c (heap st r)\<rparr>)"
  by (cases "convert_date pd (heap st r) c")
     (simp_all add: date_step_def try_except_def logging_def store_def normalize_column_def
        date_log1_def)

lemma numeric_loop:
  "for_each (numeric_step pd r) cs st =
     Inr (st\<lparr>heap := (heap st)(r := fold (coerce_column pd) cs (heap st r)),
             logged := logged st @ numeric_log pd cs (heap st r)\<rparr>)"
  by (induction cs arbitrary: st) (simp_all add: numeric_step_eq)

lemma date_loop:
  "for_each (date_step pd r) cs st =
     Inr (st\<lparr>heap := (heap st)(r := fold (normalize_column pd) cs (heap st r)),
             logged := logged st @ date_log pd cs (heap st r)\<rparr>)"
  by (induction cs arbitrary: st) (simp_all add: date_step_eq)

lemma date_columns_names:
  "list_all is_name cols \<Longrightarrow> date_columns cols = Inr (filter is_date_col cols)"
proof (induction cols)
  case Nil
  show ?case by simp
next
  case (Cons c cols)
  then show ?case by (cases c) simp_all
qed

lemma date_columns_raises:
  "\<not> list_all is_name cols \<Longrightarrow>
     date_columns cols =
       Inl (AttributeError (quoted ''int'' @ '' object has no attribute '' @ quoted ''lower''))"
proof (induction cols)
  case Nil
  then show ?case by simp
next
  case (Cons c cols)
  show ?case
  proof (cases c)
    case (Name s)
    with Cons show ?thesis by simp
  next
    case (Index i)
    then show ?thesis by simp
  qed
qed

lemma transform_eq:
  "string_labels (heap st df) \<Longrightarrow>
   transform pd df st =
     Inr (Suc (next_id st),
          st\<lparr>heap := (heap st)(next_id st := replace (Str ''?'') NA (drop_duplicates (heap st df)),
                                Suc (next_id st) := cleaned pd (heap st df)),
             next_id := Suc (Suc (next_id st)),
             logged := logged st @ transform_log pd (heap st df)\<rparr>)"
  by (simp add: transform_def Let_def alloc_def logging_def store_def numeric_loop date_loop
      cleaned_def drop_missing_def transform_log_def numeric_coercion_def date_normalization_def
      fun_upd_twist string_labels_def date_columns_names)

lemma transform_raises:
  "\<not> string_labels (heap st df) \<Longrightarrow>
   transform pd df st =
     Inl (AttributeError (quoted ''int'' @ '' object has no attribute '' @ quoted ''lower''))"
  by (simp add: transform_def Let_def alloc_def logging_def store_def numeric_loop
      string_labels_def date_columns_raises)

lemma transform_returns:
  "string_labels (heap st df) \<Longrightarrow>
   \<exists>st'. transform pd df st = Inr (Suc (next_id st), st') \<and>
     heap st' (Suc (next_id st)) = cleaned pd (heap st df) \<and>
     (\<forall>a < next_id st. heap st' a = heap st a) \<and>
     logged st' = logged st @ transform_log pd (heap st df)"
  by (simp add: transform_eq)

lemma transform_Inr_iff:
  "(\<exists>r st'. transform pd df st = Inr (r, st')) \<longleftrightarrow> string_labels (heap st df)"
proof (cases "string_labels (heap st df)")
  case True
  then show ?thesis by (simp add: transform_eq)
next
  case False
  then show ?thesis by (simp add: transform_raises)
qed

lemma transform_result:
  assumes "transform pd df st = Inr (r, st')"
  shows "string_labels (heap st df)" and "r = Suc (next_id st)"
    and "heap st' r = cleaned pd (heap st df)"
    and "\<forall>a < next_id st. heap st' a = heap st a"
    and "logged st' = logged st @ transform_log pd (heap st df)"
proof -
  show sl: "string_labels (heap st df)"
    using assms transform_Inr_iff[of pd df st] by blast
  from transform_eq[OF sl, of pd] assms
  show "r = Suc (next_id st)" and "heap st' r = cleaned pd (heap st df)"
    and "\<forall>a < next_id st. heap st' a = heap st a"
    and "logged st' = logged st @ transform_log pd (heap st df)"
    by auto
qed

lemma transform_returns_on_names:
  "string_labels (heap st df) \<longrightarrow> (\<exists>r st'. transform pd df st = Inr (r, st'))"
  by (simp add: transform_Inr_iff)

subsection \<open>Duplicates\<close>

lemma unmasked_Nil [simp]: "unmasked [] bs = []"
  by (simp add: unmasked_def)

lemma unmasked_Cons [simp]:
  "unmasked (r # rs) (b # bs) = (if b then unmasked rs bs else r # unmasked rs bs)"
  by (simp add: unmasked_def)

lemma set_keep_first: "set (unmasked rs (duplicated seen rs)) = set rs - set seen"
  by (induction rs arbitrary: seen) auto

lemma distinct_keep_first: "distinct (unmasked rs (duplicated seen rs))"
  by (induction rs arbitrary: seen) (auto simp: set_keep_first)

lemma keep_first_id:
  "distinct rs \<Longrightarrow> set rs \<inter> set seen = {} \<Longrightarrow> unmasked rs (duplicated seen rs) = rs"
  by (induction rs arbitrary: seen) auto

lemma length_keep_first: "length (unmasked rs (duplicated seen rs)) \<le> length rs"
  by (induction rs arbitrary: seen) (auto simp: le_SucI)

lemma drop_duplicates_distinct_id: "distinct (rows df) \<Longrightarrow> drop_duplicates df = df"
  by (simp add: drop_duplicates_def keep_first_id)

lemma distinct_drop_duplicates: "columns df \<noteq> [] \<Longrightarrow> distinct (rows (drop_duplicates df))"
  by (auto simp: drop_duplicates_def empty_frame_def distinct_keep_first)

lemma drop_duplicates_idem: "drop_duplicates (drop_duplicates df) = drop_duplicates df"
  by (auto simp: drop_duplicates_def empty_frame_def keep_first_id distinct_keep_first)

lemma shape0_drop_duplicates_le: "shape0 (drop_duplicates df) \<le> shape0 df"
  by (simp add: drop_duplicates_def shape0_def length_keep_first)

lemma distinct_filter_map:
  "distinct xs \<Longrightarrow> (\<And>x y. x \<in> set xs \<Longrightarrow> y \<in> set xs \<Longrightarrow> P (g x) \<Longrightarrow> g x = g y \<Longrightarrow> x = y)
    \<Longrightarrow> distinct (filter P (map g xs))"
proof (induction xs)
  case Nil
  show ?case by simp
next
  case (Cons a xs)
  have "distinct (filter P (map g xs))"
    using Cons by simp
  moreover have "g a \<notin> set (map g xs)" if "P (g a)"
  proof
    assume "g a \<in> set (map g xs)"
    then obtain y where y: "y \<in> set xs" "g a = g y" by auto
    with Cons.prems(2)[of a y] that have "a = y" by simp
    with y Cons.prems(1) show False by simp
  qed
  ultimately show ?case by auto
qed

lemma replace_sentinel_row_id:
  "\<not> list_ex isna (map (\<lambda>c. if c = Str ''?'' then NA else c) r)
    \<Longrightarrow> map (\<lambda>c. if c = Str ''?'' then NA else c) r = r"
  by (induction r) (auto simp: isna_def split: if_splits)

lemma distinct_drop_missing: "columns df \<noteq> [] \<Longrightarrow> distinct (rows (drop_missing df))"
proof -
  assume "columns df \<noteq> []"
  then have d: "distinct (rows (drop_duplicates df))" by (rule distinct_drop_duplicates)
  have "distinct (filter (\<lambda>r. \<not> list_ex isna r)
          (map (map (\<lambda>c. if c = Str ''?'' then NA else c)) (rows (drop_duplicates df))))"
  proof (rule distinct_filter_map[OF d])
    fix x y :: "'a cell list"
    assume "\<not> list_ex isna (map (\<lambda>c. if c = Str ''?'' then NA else c) x)"
      and eq: "map (\<lambda>c. if c = Str ''?'' then NA else c) x = map (\<lambda>c. if c = Str ''?'' then NA else c) y"
    then have "map (\<lambda>c. if c = Str ''?'' then NA else c) x = x"
      "map (\<lambda>c. if c = Str ''?'' then NA else c) y = y"
      using replace_sentinel_row_id[of x] replace_sentinel_row_id[of y] by simp_all
    with eq show "x = y" by simp
  qed
  then show ?thesis by (simp add: drop_missing_def dropna_def replace_def)
qed

subsection \<open>The sentinel\<close>

lemma sentinel_free_replace: "sentinel_free (replace (Str ''?'') NA df)"
  by (auto simp: sentinel_free_def replace_def)

lemma sentinel_free_dropna: "sentinel_free df \<Longrightarrow> sentinel_free (dropna df)"
  by (auto simp: sentinel_free_def dropna_def)

lemma sentinel_free_drop_missing: "sentinel_free (drop_missing df)"
  by (simp add: drop_missing_def sentinel_free_dropna sentinel_free_replace)

lemma set_fold_update: "set (fold (\<lambda>j r'. r'[j := v]) ps r) \<subseteq> insert v (set r)"
proof (induction ps arbitrary: r)
  case Nil
  show ?case by auto
next
  case (Cons p ps)
  have "set (fold (\<lambda>j r'. r'[j := v]) ps (r[p := v])) \<subseteq> insert v (set (r[p := v]))"
    by (rule Cons.IH)
  also have "\<dots> \<subseteq> insert v (set r)"
    using set_update_subset_insert[of r p v] by auto
  finally show ?case by simp
qed

lemma sentinel_free_setitem:
  assumes "sentinel_free df" "Str ''?'' \<notin> set vs" "setitem df col vs = Inr df'"
  shows "sentinel_free df'"
  unfolding sentinel_free_def
proof
  fix r' assume r': "r' \<in> set (rows df')"
  from assms(3) r' obtain r v where rv: "(r, v) \<in> set (zip (rows df) vs)"
    and r'_eq: "r' = fold (\<lambda>j r'. r'[j := v]) (positions col (columns df)) r \<or> r' = r @ [v]"
    by (auto simp: setitem_def split: if_splits)
  from rv have "r \<in> set (rows df)" "v \<in> set vs"
    by (auto dest: set_zip_leftD set_zip_rightD)
  with assms(1,2) have "Str ''?'' \<notin> set r" "v \<noteq> Str ''?''"
    by (auto simp: sentinel_free_def)
  with r'_eq set_fold_update[of v "positions col (columns df)" r]
  show "Str ''?'' \<notin> set r'" by auto
qed

lemma update_with_own_cells:
  "map (\<lambda>(r, v). r[j := v]) (zip rs (map (\<lambda>r. r ! j) rs)) = rs"
  by (induction rs) simp_all

lemma getitem_setitem_same:
  assumes "getitem df col = Inr (Series vs)"
  shows "setitem df col vs = Inr df"
proof -
  from assms obtain j where j: "positions col (columns df) = [j]" and vs: "vs = column_at j df"
    by (auto simp: getitem_def split: list.splits)
  have "col \<in> set (columns df)" using assms by (rule getitem_Inr_member)
  then show ?thesis
    by (simp add: setitem_def vs column_at_def j update_with_own_cells)
qed

lemma numeric_cell_not_sentinel: "numeric_cell x \<noteq> Str ''?''"
  by (cases x) (simp_all add: numeric_cell_def)

lemma str_nat_nonempty: "str_nat n \<noteq> []"
  by (subst str_nat.simps) simp

lemma strftime_not_sentinel: "strftime d \<noteq> ''?''"
proof -
  obtain c cs where "str_nat (year d) = c # cs"
    using str_nat_nonempty[of "year d"] by (cases "str_nat (year d)") auto
  then have "length (strftime d) \<ge> 2" by (simp add: strftime_def)
  then show ?thesis by auto
qed

lemma strftime_cell_not_sentinel: "strftime_cell d \<noteq> Str ''?''"
  by (cases d) (simp_all add: strftime_cell_def strftime_not_sentinel)

lemma convert_numeric_cases:
  assumes "convert_numeric pd df col = Inr df'"
  obtains vs where "getitem df col = Inr (Series vs)" "numeric_outcome pd vs = Inr Unconverted"
      "setitem df col vs = Inr df'"
  | vs xs where "getitem df col = Inr (Series vs)" "numeric_outcome pd vs = Inr (Converted xs)"
      "setitem df col (map numeric_cell xs) = Inr df'"
proof (cases "getitem df col")
  case (Inl e)
  with assms show ?thesis by (simp add: convert_numeric_def)
next
  case g: (Inr sel)
  show ?thesis
  proof (cases sel)
    case (SubFrame cols)
    with assms g show ?thesis by (simp add: convert_numeric_def to_numeric_def)
  next
    case (Series vs)
    show ?thesis
    proof (cases "numeric_outcome pd vs")
      case (Inl e)
      with assms g Series show ?thesis by (simp add: convert_numeric_def to_numeric_def)
    next
      case out: (Inr c)
      show ?thesis
      proof (cases c)
        case Unconverted
        with assms g Series out that(1)[of vs] show ?thesis
          by (simp add: convert_numeric_def to_numeric_def)
      next
        case (Converted xs)
        with assms g Series out that(2)[of vs xs] show ?thesis
          by (simp add: convert_numeric_def to_numeric_def)
      qed
    qed
  qed
qed

lemma sentinel_free_coerce_column: "sentinel_free df \<Longrightarrow> sentinel_free (coerce_column pd col df)"
proof (cases "convert_numeric pd df col")
  case (Inl e)
  assume "sentinel_free df"
  with Inl show ?thesis by (simp add: coerce_column_def)
next
  case (Inr df')
  assume sf: "sentinel_free df"
  from Inr have "sentinel_free df'"
  proof (cases rule: convert_numeric_cases)
    case (1 vs)
    then have "df' = df" by (simp add: getitem_setitem_same)
    with sf show ?thesis by simp
  next
    case (2 vs xs)
    have "Str ''?'' \<notin> set (map numeric_cell xs)"
    proof
      assume "Str ''?'' \<in> set (map numeric_cell xs)"
      then obtain x where "x \<in> set xs" "Str ''?'' = numeric_cell x" by auto
      then show False using numeric_cell_not_sentinel[of x] by simp
    qed
    with sf 2(3) show ?thesis by (intro sentinel_free_setitem[of df "map numeric_cell xs" col df'])
  qed
  with Inr show ?thesis by (simp add: coerce_column_def)
qed

lemma to_datetime_strftime_no_sentinel:
  "to_datetime_strftime pd s = Inr vs \<Longrightarrow> Str ''?'' \<notin> set vs"
  by (auto simp: to_datetime_strftime_def strftime_cell_not_sentinel [symmetric]
      split: sum.splits selection.splits)

lemma sentinel_free_normalize_column: "sentinel_free df \<Longrightarrow> sentinel_free (normalize_column pd col df)"
  by (auto simp: normalize_column_def convert_date_def
      split: sum.splits
      intro: sentinel_free_setitem dest: to_datetime_strftime_no_sentinel)

lemma sentinel_free_cleaned: "sentinel_free (cleaned pd df)"
proof -
  have a: "sentinel_free (fold (coerce_column pd) cs d)" if "sentinel_free d" for cs d
    using that by (induction cs arbitrary: d) (auto intro: sentinel_free_coerce_column)
  have b: "sentinel_free (fold (normalize_column pd) cs d)" if "sentinel_free d" for cs d
    using that by (induction cs arbitrary: d) (auto intro: sentinel_free_normalize_column)
  show ?thesis
    by (simp add: cleaned_def numeric_coercion_def date_normalization_def a b
        sentinel_free_drop_missing)
qed

subsection \<open>Columns of a well-formed frame\<close>

lemma positions_distinct:
  assumes "distinct cols" "j < length cols"
  shows "positions (cols ! j) cols = [j]"
proof -
  have "filter (\<lambda>i. cols ! i = cols ! j) [0..<length cols] = filter (\<lambda>i. i = j) [0..<length cols]"
    using assms by (intro filter_cong) (auto simp: nth_eq_iff_index_eq)
  also have "\<dots> = [j]"
    using assms(2) by (induction cols rule: rev_induct) (auto simp: less_Suc_eq)
  finally show ?thesis by (simp add: positions_def)
qed

lemma getitem_unique:
  "distinct (columns df) \<Longrightarrow> j < length (columns df)
    \<Longrightarrow> getitem df (columns df ! j) = Inr (Series (column_at j df))"
  by (simp add: getitem_def positions_distinct)

lemma setitem_unique:
  "distinct (columns df) \<Longrightarrow> j < length (columns df) \<Longrightarrow> length vs = length (rows df)
    \<Longrightarrow> setitem df (columns df ! j) vs = Inr (df\<lparr>rows := map (\<lambda>(r, v). r[j := v]) (zip (rows df) vs)\<rparr>)"
  by (simp add: setitem_def positions_distinct)

lemma columns_assign [simp]: "columns (assign j vs df) = columns df"
  by (simp add: assign_def)

lemma well_formed_assign: "well_formed df \<Longrightarrow> well_formed (assign j vs df)"
  by (auto simp: well_formed_def rectangular_def assign_def list_all_iff dest: set_zip_leftD)

lemma column_at_assign:
  assumes "rectangular df" "length vs = length (rows df)" "j < length (columns df)"
  shows "column_at k (assign j vs df) = (if k = j then vs else column_at k df)"
proof -
  have len: "\<And>r. r \<in> set (rows df) \<Longrightarrow> j < length r"
    using assms(1,3) by (auto simp: rectangular_def list_all_iff)
  have "map (\<lambda>r. r ! k) (map (\<lambda>(r, v). r[j := v]) (zip rs vs)) = (if k = j then vs else map (\<lambda>r. r ! k) rs)"
    if "length vs = length rs" "\<And>r. r \<in> set rs \<Longrightarrow> j < length r" for rs
    using that by (induction rs vs rule: list_induct2') auto
  from this[OF assms(2) len] show ?thesis
    by (simp add: column_at_def assign_def)
qed

lemma length_rows_assign: "length vs = length (rows df) \<Longrightarrow> length (rows (assign j vs df)) = length (rows df)"
  by (simp add: assign_def)

lemma length_column_at [simp]: "length (column_at j df) = length (rows df)"
  by (simp add: column_at_def)

lemma assign_same:
  assumes "rectangular df" "j < length (columns df)"
  shows "assign j (column_at j df) df = df"
proof -
  have "map (\<lambda>(r, v). r[j := v]) (zip rs (map (\<lambda>r. r ! j) rs)) = rs" for rs :: "'a cell list list"
    by (induction rs) auto
  then show ?thesis by (simp add: assign_def column_at_def)
qed

lemma numeric_cell_eq: "numeric_cell = (\<lambda>x. case x of None \<Rightarrow> NA | Some n \<Rightarrow> Num n)"
  by (rule ext) (simp add: numeric_cell_def)

lemma strftime_cell_eq:
  "strftime_cell = (\<lambda>d. case d of None \<Rightarrow> NA | Some d' \<Rightarrow> Str (strftime d'))"
  by (rule ext) (simp add: strftime_cell_def)

lemma coerce_column_unique:
  assumes "well_formed df" "j < length (columns df)"
  shows "coerce_column pd (columns df ! j) df = assign j (coerced pd (column_at j df)) df"
proof (cases "numeric_outcome pd (column_at j df)")
  case (Inl e)
  with assms show ?thesis
    by (simp add: coerce_column_def convert_numeric_def getitem_unique well_formed_def
        to_numeric_def coerced_def assign_same)
next
  case out: (Inr c)
  show ?thesis
  proof (cases c)
    case Unconverted
    with out assms show ?thesis
      by (simp add: coerce_column_def convert_numeric_def getitem_unique well_formed_def
          to_numeric_def coerced_def setitem_unique assign_def)
  next
    case (Converted xs)
    show ?thesis
    proof (cases "length xs = length (rows df)")
      case True
      with out Converted assms show ?thesis
        by (simp add: coerce_column_def convert_numeric_def getitem_unique well_formed_def
            to_numeric_def coerced_def setitem_unique assign_def numeric_cell_eq)
    next
      case False
      with out Converted assms show ?thesis
        by (simp add: coerce_column_def convert_numeric_def getitem_unique well_formed_def
            to_numeric_def coerced_def setitem_def assign_same)
    qed
  qed
qed

lemma normalize_column_unique:
  assumes "well_formed df" "j < length (columns df)"
  shows "normalize_column pd (columns df ! j) df = assign j (normalized pd (column_at j df)) df"
proof (cases "to_datetime pd (column_at j df)")
  case (Inl e)
  with assms show ?thesis
    by (simp add: normalize_column_def convert_date_def getitem_unique well_formed_def
        to_datetime_strftime_def normalized_def assign_same)
next
  case (Inr ds)
  show ?thesis
  proof (cases "length ds = length (rows df)")
    case True
    with Inr assms show ?thesis
      by (simp add: normalize_column_def convert_date_def getitem_unique well_formed_def
        to_datetime_strftime_def normalized_def setitem_unique assign_def strftime_cell_eq)
  next
    case False
    with Inr assms show ?thesis
      by (simp add: normalize_column_def convert_date_def getitem_unique well_formed_def
        to_datetime_strftime_def normalized_def setitem_def assign_same)
  qed
qed

lemma length_coerced [simp]: "length (coerced pd vs) = length vs"
  by (auto simp: coerced_def split: sum.splits conversion.splits)

lemma length_normalized [simp]: "length (normalized pd vs) = length vs"
  by (auto simp: normalized_def split: sum.splits)

lemma fold_columns_generic:
  assumes step: "\<And>d j. well_formed d \<Longrightarrow> j < length (columns d) \<Longrightarrow> f (columns d ! j) d = assign j (g (column_at j d)) d"
    and len: "\<And>vs. length (g vs) = length vs"
  shows "well_formed df \<Longrightarrow> distinct cs \<Longrightarrow> set cs \<subseteq> set (columns df) \<Longrightarrow>
    well_formed (fold f cs df) \<and> columns (fold f cs df) = columns df \<and>
    length (rows (fold f cs df)) = length (rows df) \<and>
    (\<forall>k < length (columns df). column_at k (fold f cs df) =
        (if columns df ! k \<in> set cs then g (column_at k df) else column_at k df))"
proof (induction cs arbitrary: df)
  case Nil
  then show ?case by simp
next
  case (Cons c cs)
  from Cons.prems obtain j where j: "j < length (columns df)" "columns df ! j = c"
    by (auto simp: in_set_conv_nth)
  let ?d = "assign j (g (column_at j df)) df"
  have fd: "f c df = ?d" using step[OF Cons.prems(1) j(1)] j(2) by simp
  have wf: "well_formed ?d" using Cons.prems(1) by (rule well_formed_assign)
  have rect: "rectangular df" using Cons.prems(1) by (simp add: well_formed_def)
  have dist: "distinct (columns df)" using Cons.prems(1) by (simp add: well_formed_def)
  have lg: "length (g (column_at j df)) = length (rows df)" by (simp add: len)
  have IH: "well_formed (fold f cs ?d) \<and> columns (fold f cs ?d) = columns ?d \<and>
    length (rows (fold f cs ?d)) = length (rows ?d) \<and>
    (\<forall>k < length (columns ?d). column_at k (fold f cs ?d) =
        (if columns ?d ! k \<in> set cs then g (column_at k ?d) else column_at k ?d))"
    using Cons.prems by (intro Cons.IH wf) auto
  have col: "column_at k ?d = (if k = j then g (column_at j df) else column_at k df)" for k
    using column_at_assign[OF rect lg j(1)] by simp
  have cnot: "columns df ! j \<notin> set cs" using Cons.prems(2) j(2) by simp
  have jk: "columns df ! k = c \<longleftrightarrow> k = j" if "k < length (columns df)" for k
    using dist j that by (auto simp: nth_eq_iff_index_eq)
  show ?case
    using IH cnot j(1) by (auto simp: fd col length_rows_assign lg jk)
qed

lemma numeric_coercion_columns:
  assumes "well_formed df"
  shows "well_formed (numeric_coercion pd df)"
    and "length (rows (numeric_coercion pd df)) = length (rows df)"
    and "k < length (columns df) \<Longrightarrow> column_at k (numeric_coercion pd df) = coerced pd (column_at k df)"
proof -
  have d: "distinct (columns df)" using assms by (simp add: well_formed_def)
  note * = fold_columns_generic[of "coerce_column pd" "coerced pd" df "columns df",
      OF coerce_column_unique length_coerced assms d subset_refl]
  show "well_formed (numeric_coercion pd df)"
    and "length (rows (numeric_coercion pd df)) = length (rows df)"
    and "k < length (columns df) \<Longrightarrow> column_at k (numeric_coercion pd df) = coerced pd (column_at k df)"
    using * by (simp_all add: numeric_coercion_def)
qed

lemma date_normalization_columns:
  assumes "well_formed df"
  shows "well_formed (date_normalization pd df)"
    and "length (rows (date_normalization pd df)) = length (rows df)"
    and "k < length (columns df) \<Longrightarrow> column_at k (date_normalization pd df) =
          (if is_date_col (columns df ! k) then normalized pd (column_at k df) else column_at k df)"
proof -
  have d: "distinct (filter is_date_col (columns df))" using assms by (simp add: well_formed_def)
  have s: "set (filter is_date_col (columns df)) \<subseteq> set (columns df)" by auto
  note * = fold_columns_generic[of "normalize_column pd" "normalized pd" df "filter is_date_col (columns df)",
      OF normalize_column_unique length_normalized assms d s]
  show "well_formed (date_normalization pd df)"
    and "length (rows (date_normalization pd df)) = length (rows df)"
    and "k < length (columns df) \<Longrightarrow> column_at k (date_normalization pd df) =
          (if is_date_col (columns df ! k) then normalized pd (column_at k df) else column_at k df)"
    using * by (simp_all add: date_normalization_def)
qed

lemma well_formed_drop_missing: "well_formed df \<Longrightarrow> well_formed (drop_missing df)"
proof -
  assume wf: "well_formed df"
  have "set (rows (drop_duplicates df)) \<subseteq> set (rows df)"
    by (auto simp: drop_duplicates_def set_keep_first)
  with wf show ?thesis
    by (auto simp: well_formed_def rectangular_def list_all_iff drop_missing_def dropna_def replace_def)
qed







subsection \<open>Parsing a column, row counts, missing values\<close>

lemma length_rows_coerce_column: "length (rows (coerce_column pd col df)) = length (rows df)"
  by (auto simp: coerce_column_def convert_numeric_def split: sum.splits dest: setitem_shape0)

lemma length_rows_normalize_column: "length (rows (normalize_column pd col df)) = length (rows df)"
  by (auto simp: normalize_column_def convert_date_def split: sum.splits dest: setitem_shape0)

lemma length_rows_cleaned: "length (rows (cleaned pd df)) = length (rows (drop_missing df))"
proof -
  have a: "length (rows (fold (coerce_column pd) cs d)) = length (rows d)" for cs d
    by (induction cs arbitrary: d) (simp_all add: length_rows_coerce_column)
  have b: "length (rows (fold (normalize_column pd) cs d)) = length (rows d)" for cs d
    by (induction cs arbitrary: d) (simp_all add: length_rows_normalize_column)
  show ?thesis by (simp add: cleaned_def numeric_coercion_def date_normalization_def a b)
qed

lemma drop_missing_no_NA: "r \<in> set (rows (drop_missing df)) \<Longrightarrow> NA \<notin> set r"
  by (auto simp: drop_missing_def dropna_def list_ex_iff isna_def)

lemma column_at_subset:
  "rectangular df \<Longrightarrow> j < length (columns df) \<Longrightarrow> c \<in> set (column_at j df)
    \<Longrightarrow> \<exists>r \<in> set (rows df). c \<in> set r"
proof -
  assume a: "rectangular df" "j < length (columns df)" "c \<in> set (column_at j df)"
  then obtain r where r: "r \<in> set (rows df)" "c = r ! j"
    by (auto simp: column_at_def)
  with a have "j < length r" by (auto simp: rectangular_def list_all_iff)
  with r have "c \<in> set r" by simp
  with r show ?thesis by blast
qed

lemma drop_missing_column_no_NA:
  assumes "well_formed df" "j < length (columns df)"
  shows "NA \<notin> set (column_at j (drop_missing df))"
proof
  assume "NA \<in> set (column_at j (drop_missing df))"
  moreover have "rectangular (drop_missing df)"
    using well_formed_drop_missing[OF assms(1)] by (simp add: well_formed_def)
  ultimately obtain r where "r \<in> set (rows (drop_missing df))" "NA \<in> set r"
    using column_at_subset[of "drop_missing df" j NA] assms(2) by auto
  then show False by (auto dest: drop_missing_no_NA)
qed

subsection \<open>Substrings\<close>




subsection \<open>Empty frames\<close>

lemma coerce_column_no_rows: "rows df = [] \<Longrightarrow> coerce_column pd col df = df"
  by (auto simp: coerce_column_def convert_numeric_def setitem_def
      split: sum.splits if_splits dest: getitem_Inr_member)

lemma normalize_column_no_rows: "rows df = [] \<Longrightarrow> normalize_column pd col df = df"
  by (auto simp: normalize_column_def convert_date_def setitem_def
      split: sum.splits if_splits dest: getitem_Inr_member)

lemma empty_steps:
  assumes "empty_frame df" "rectangular df"
  shows "drop_duplicates df = df" "replace (Str ''?'') NA df = df" "dropna df = df"
    "numeric_coercion pd df = df" "date_normalization pd df = df"
proof -
  show "drop_duplicates df = df" using assms by (simp add: drop_duplicates_def)
  have r: "\<And>r. r \<in> set (rows df) \<Longrightarrow> r = []" if "columns df = []"
    using assms(2) that by (auto simp: rectangular_def list_all_iff)
  have "map (map (\<lambda>c. if c = Str ''?'' then NA else c)) (rows df) = rows df"
    using assms(1) r by (auto simp: empty_frame_def intro: map_idI)
  then show "replace (Str ''?'') NA df = df" by (simp add: replace_def)
  have "filter (\<lambda>r. \<not> list_ex isna r) (rows df) = rows df"
  proof (cases "rows df = []")
    case True
    then show ?thesis by simp
  next
    case False
    with assms(1) have "columns df = []" by (simp add: empty_frame_def)
    then have "\<not> list_ex isna x" if "x \<in> set (rows df)" for x
      using r[of x] that by simp
    then show ?thesis by (simp add: filter_id_conv)
  qed
  then show "dropna df = df" by (simp add: dropna_def)
  have a: "fold (coerce_column pd) cs df = df" if "rows df = []" for cs
    using that by (induction cs) (simp_all add: coerce_column_no_rows)
  have b: "fold (normalize_column pd) cs df = df" if "rows df = []" for cs
    using that by (induction cs) (simp_all add: normalize_column_no_rows)
  show "numeric_coercion pd df = df" using assms(1) a
    by (auto simp: numeric_coercion_def empty_frame_def)
  show "date_normalization pd df = df" using assms(1) b
    by (auto simp: date_normalization_def empty_frame_def)
qed

lemma cleaned_empty: "empty_frame df \<Longrightarrow> rectangular df \<Longrightarrow> cleaned pd df = df"
  by (simp add: cleaned_def drop_missing_def empty_steps)

subsection \<open>The example state\<close>

lemma heap_initial_state [simp]: "heap (initial_state df) 0 = df"
  by (simp add: initial_state_def)

lemma logged_initial_state [simp]: "logged (initial_state df) = []"
  by (simp add: initial_state_def)

lemma next_id_initial_state [simp]: "next_id (initial_state df) = 1"
  by (simp add: initial_state_def)

subsection \<open>The steps in the spec's words and the pandas operations\<close>

lemma first_occurrences_cong:
  "set seen = set seen' \<Longrightarrow> first_occurrences seen rs = first_occurrences seen' rs"
proof (induction rs arbitrary: seen seen')
  case Nil
  show ?case by simp
next
  case (Cons r rs)
  have "first_occurrences (r # seen) rs = first_occurrences (r # seen') rs"
    using Cons.prems by (intro Cons.IH) simp
  moreover have "first_occurrences seen rs = first_occurrences seen' rs"
    using Cons.prems by (rule Cons.IH)
  moreover have "r \<in> set seen \<longleftrightarrow> r \<in> set seen'" using Cons.prems by simp
  ultimately show ?case by (simp del: set_simps)
qed

lemma first_occurrences_eq: "unmasked rs (duplicated seen rs) = first_occurrences seen rs"
proof (induction rs arbitrary: seen)
  case Nil
  show ?case by simp
next
  case (Cons r rs)
  have "first_occurrences (r # seen) rs = first_occurrences seen rs" if "r \<in> set seen"
    using that by (intro first_occurrences_cong) auto
  with Cons show ?case by simp
qed

lemma spec_deduplicate_eq: "drop_duplicates df = spec_deduplicate df"
  by (cases "rows df = []")
     (simp_all add: drop_duplicates_def spec_deduplicate_def empty_frame_def first_occurrences_eq)

lemma spec_mark_missing_eq: "replace (Str ''?'') NA df = spec_mark_missing df"
  by (simp add: replace_def spec_mark_missing_def)

lemma spec_drop_missing_eq: "dropna df = spec_drop_missing df"
proof -
  have "(\<not> list_ex isna r) = (NA \<notin> set r)" for r :: "'a cell list"
    by (auto simp: list_ex_iff isna_def)
  then show ?thesis by (simp add: dropna_def spec_drop_missing_def)
qed

lemma rows_by_columns:
  assumes "rectangular df"
  shows "rows df = map (\<lambda>i. map (\<lambda>j. column_at j df ! i) [0..<length (columns df)])
                     [0..<length (rows df)]"
proof (rule nth_equalityI)
  show "length (rows df) = length (map (\<lambda>i. map (\<lambda>j. column_at j df ! i) [0..<length (columns df)])
                     [0..<length (rows df)])"
    by simp
next
  fix i assume i: "i < length (rows df)"
  then have len: "length (rows df ! i) = length (columns df)"
    using assms by (simp add: rectangular_def list_all_length)
  have "map (\<lambda>j. column_at j df ! i) [0..<length (columns df)] =
        map (\<lambda>j. (rows df ! i) ! j) [0..<length (rows df ! i)]"
    using i by (simp add: column_at_def len)
  also have "\<dots> = rows df ! i" by (rule map_nth)
  finally show "rows df ! i = map (\<lambda>i. map (\<lambda>j. column_at j df ! i) [0..<length (columns df)])
                     [0..<length (rows df)] ! i"
    using i by simp
qed

lemma frame_by_columns:
  assumes "rectangular d" "columns d = columns df" "length (rows d) = length (rows df)"
    and "\<And>j. j < length (columns df) \<Longrightarrow> column_at j d = f j"
  shows "d = with_columns f df"
proof -
  have "rows d = map (\<lambda>i. map (\<lambda>j. f j ! i) [0..<length (columns df)]) [0..<length (rows df)]"
    using rows_by_columns[OF assms(1)] assms(2,3,4) by simp
  with assms(2) show ?thesis by (simp add: with_columns_def)
qed

lemma spec_coerce_numeric_eq:
  assumes "well_formed df"
  shows "numeric_coercion pd df = spec_coerce_numeric pd df"
  unfolding spec_coerce_numeric_def
proof (rule frame_by_columns)
  show "rectangular (numeric_coercion pd df)"
    using numeric_coercion_columns(1)[OF assms] by (simp add: well_formed_def)
  show "columns (numeric_coercion pd df) = columns df" by simp
  show "length (rows (numeric_coercion pd df)) = length (rows df)"
    using numeric_coercion_columns(2)[OF assms] .
  show "column_at j (numeric_coercion pd df) = coerced pd (column_at j df)"
    if "j < length (columns df)" for j
    using numeric_coercion_columns(3)[OF assms that] .
qed

lemma spec_normalize_dates_eq:
  assumes "well_formed df"
  shows "date_normalization pd df = spec_normalize_dates pd df"
  unfolding spec_normalize_dates_def
proof (rule frame_by_columns)
  show "rectangular (date_normalization pd df)"
    using date_normalization_columns(1)[OF assms] by (simp add: well_formed_def)
  show "columns (date_normalization pd df) = columns df" by simp
  show "length (rows (date_normalization pd df)) = length (rows df)"
    using date_normalization_columns(2)[OF assms] .
  show "column_at j (date_normalization pd df) =
      (if is_date_col (columns df ! j) then normalized pd (column_at j df) else column_at j df)"
    if "j < length (columns df)" for j
    using date_normalization_columns(3)[OF assms that] .
qed

lemma cleaned_in_spec_words:
  assumes "well_formed df"
  shows "cleaned pd df =
     spec_normalize_dates pd (spec_coerce_numeric pd
       (spec_drop_missing (spec_mark_missing (spec_deduplicate df))))"
proof -
  have wf3: "well_formed (drop_missing df)" using assms by (rule well_formed_drop_missing)
  have wf4: "well_formed (numeric_coercion pd (drop_missing df))"
    using numeric_coercion_columns(1)[OF wf3] .
  have "drop_missing df = spec_drop_missing (spec_mark_missing (spec_deduplicate df))"
    by (simp add: drop_missing_def spec_deduplicate_eq spec_mark_missing_eq spec_drop_missing_eq)
  then show ?thesis
    using spec_coerce_numeric_eq[OF wf3, of pd] spec_normalize_dates_eq[OF wf4, of pd]
    by (simp add: cleaned_def)
qed

section \<open>The claims\<close>

text \<open>
  \<^bold>\<open>C1.\<close> \<open>transform\<close> applies its five steps in a fixed order, each on the result of the
  one before.  For every table with unique labels (and every parser and store), the
  frame \<open>transform\<close> returns is the result of the five steps as the spec words them,
  composed in this order: deduplication, then the replacement of \<open>"?"\<close> by a missing
  marker, then the removal of rows with a missing marker, then numeric coercion column by
  column, then date normalization of the columns whose name contains \<open>date\<close>.  Duplicates
  are removed before rows with missing values are dropped: the number of removed
  duplicates that is logged is counted on the input as it came, and the number of
  remaining rows on the result of the first three steps.  \<open>transform\<close> returns whenever
  the labels are strings.
\<close>

theorem transform_steps_in_order:
  assumes "well_formed (heap st df)"
  shows "(string_labels (heap st df) \<longrightarrow> (\<exists>r st'. transform pd df st = Inr (r, st'))) \<and>
   (\<forall>r st'. transform pd df st = Inr (r, st') \<longrightarrow>
     heap st' r =
       spec_normalize_dates pd (spec_coerce_numeric pd
         (spec_drop_missing (spec_mark_missing (spec_deduplicate (heap st df))))) \<and>
     take 3 (drop (length (logged st)) (logged st')) =
       [(INFO, ''Transforming data...''),
        (INFO, ''Removed '' @ str_int (int (shape0 (heap st df))
                   - int (shape0 (spec_deduplicate (heap st df)))) @ '' duplicate rows.''),
        (INFO, ''Removed rows with missing values, remaining: ''
                 @ str_nat (shape0 (spec_drop_missing (spec_mark_missing
                     (spec_deduplicate (heap st df)))))
                 @ '' rows.'')])"
proof (intro conjI allI impI transform_returns_on_names[rule_format])
  fix r st' assume tr: "transform pd df st = Inr (r, st')"
  note out = transform_result(3)[OF tr] and lg = transform_result(5)[OF tr]
  have steps: "drop_missing (heap st df) =
      spec_drop_missing (spec_mark_missing (spec_deduplicate (heap st df)))"
    by (simp add: drop_missing_def spec_deduplicate_eq spec_mark_missing_eq spec_drop_missing_eq)
  have l3: "take 3 (drop (length (logged st)) (logged st')) =
       [(INFO, ''Transforming data...''),
        (INFO, ''Removed '' @ str_int (int (shape0 (heap st df))
                   - int (shape0 (drop_duplicates (heap st df)))) @ '' duplicate rows.''),
        (INFO, ''Removed rows with missing values, remaining: ''
                 @ str_nat (shape0 (drop_missing (heap st df))) @ '' rows.'')]"
    by (simp add: lg transform_log_def)
  from l3 show "take 3 (drop (length (logged st)) (logged st')) =
       [(INFO, ''Transforming data...''),
        (INFO, ''Removed '' @ str_int (int (shape0 (heap st df))
                   - int (shape0 (spec_deduplicate (heap st df)))) @ '' duplicate rows.''),
        (INFO, ''Removed rows with missing values, remaining: ''
                 @ str_nat (shape0 (spec_drop_missing (spec_mark_missing
                     (spec_deduplicate (heap st df)))))
                 @ '' rows.'')]"
    by (simp only: steps spec_deduplicate_eq)
  show "heap st' r =
       spec_normalize_dates pd (spec_coerce_numeric pd
         (spec_drop_missing (spec_mark_missing (spec_deduplicate (heap st df)))))"
    using out cleaned_in_spec_words[OF assms(1), of pd] by simp
qed

theorem transform_steps_in_order_witness:
  "\<exists>r st'. transform example_pandas 0 (initial_state visit_records) = Inr (r, st') \<and>
     heap st' r = \<lparr>columns = [Name ''age'', Name ''visit_date''],
                   rows = [[Num 29, Str ''2020-01-15''], [Num 60, NA]]\<rparr> \<and>
     take 3 (logged st') =
       [(INFO, ''Transforming data...''),
        (INFO, ''Removed 1 duplicate rows.''),
        (INFO, ''Removed rows with missing values, remaining: 2 rows.'')]"
proof -
  have wf: "well_formed (heap (initial_state visit_records) 0)" by (simp, code_simp)
  have sl: "string_labels (heap (initial_state visit_records) 0)" by (simp, code_simp)
  have a: "spec_normalize_dates example_pandas (spec_coerce_numeric example_pandas
         (spec_drop_missing (spec_mark_missing (spec_deduplicate visit_records)))) =
       \<lparr>columns = [Name ''age'', Name ''visit_date''],
        rows = [[Num 29, Str ''2020-01-15''], [Num 60, NA]]\<rparr>"
    by code_simp
  have b: "''Removed '' @ str_int (int (shape0 visit_records) - int (shape0 (spec_deduplicate visit_records)))
        @ '' duplicate rows.'' = ''Removed 1 duplicate rows.''"
    by code_simp
  have c: "''Removed rows with missing values, remaining: ''
        @ str_nat (shape0 (spec_drop_missing (spec_mark_missing (spec_deduplicate visit_records))))
        @ '' rows.''
      = ''Removed rows with missing values, remaining: 2 rows.''"
    by code_simp
  note t = transform_steps_in_order[OF wf, of example_pandas]
  from t sl obtain r st' where
    tr: "transform example_pandas 0 (initial_state visit_records) = Inr (r, st')" by blast
  from t[THEN conjunct2, rule_format, OF tr] have
    "heap st' r = \<lparr>columns = [Name ''age'', Name ''visit_date''],
                   rows = [[Num 29, Str ''2020-01-15''], [Num 60, NA]]\<rparr> \<and>
     take 3 (logged st') =
       [(INFO, ''Transforming data...''),
        (INFO, ''Removed 1 duplicate rows.''),
        (INFO, ''Removed rows with missing values, remaining: 2 rows.'')]"
    by (simp only: heap_initial_state logged_initial_state a b c list.size drop_0)
  with tr show ?thesis by blast
qed

text \<open>
  \<^bold>\<open>C2, as stated, fails.\<close>  A column holding the text \<open>"29"\<close> in one row and the number
  \<open>29\<close> in the next has no duplicate row, since a string is not equal to a number; numeric
  coercion then turns both cells into the number \<open>29\<close>, and the returned table has two
  equal rows.
\<close>

theorem transform_output_has_equal_rows_counterexample:
  "output_frame (transform example_pandas 0
      (initial_state \<lparr>columns = [Name ''age''], rows = [[Str ''29''], [Num 29]]\<rparr>))
    = Inr \<lparr>columns = [Name ''age''], rows = [[Num 29], [Num 29]]\<rparr>"
  by code_simp

text \<open>
  \<^bold>\<open>C2, amended.\<close>  For every input table, no cell of the table \<open>transform\<close> returns is
  the string \<open>"?"\<close>.  The rows are
  pairwise distinct in the table left by the drop-missing step (for a table with at least
  one column; pandas returns a table without columns as it is), and the returned table has
  as many rows as that table: numeric coercion and date normalization remove no row, so
  rows they make equal stay in the output.  \<open>transform\<close> returns whenever the labels are
  strings.
\<close>

theorem transform_no_sentinel:
  "(string_labels (heap st df) \<longrightarrow> (\<exists>r st'. transform pd df st = Inr (r, st'))) \<and>
   (\<forall>r st'. transform pd df st = Inr (r, st') \<longrightarrow>
     (\<forall>row \<in> set (rows (heap st' r)). Str ''?'' \<notin> set row) \<and>
     length (rows (heap st' r)) = length (rows (drop_missing (heap st df)))) \<and>
   (columns (heap st df) \<noteq> [] \<longrightarrow> distinct (rows (drop_missing (heap st df))))"
  using transform_returns_on_names[of st df pd] sentinel_free_cleaned[of pd "heap st df"]
  by (auto simp: sentinel_free_def length_rows_cleaned distinct_drop_missing
           dest!: transform_result(3))

theorem transform_no_sentinel_witness:
  "\<exists>r st'. transform example_pandas 0 (initial_state sample_data) = Inr (r, st') \<and>
     list_all (\<lambda>row. Str ''?'' \<notin> set row) (rows (heap st' r)) \<and>
     length (rows (heap st' r)) = 2 \<and>
     distinct (rows (drop_missing sample_data))"
proof -
  have sl: "string_labels (heap (initial_state sample_data) 0)" by (simp, code_simp)
  have a: "length (rows (drop_missing sample_data)) = 2" by code_simp
  have b: "columns sample_data \<noteq> []" by (simp add: sample_data_def)
  note t = transform_no_sentinel[of "initial_state sample_data" 0 example_pandas]
  from t sl obtain r st' where
    tr: "transform example_pandas 0 (initial_state sample_data) = Inr (r, st')" by blast
  from t tr a b show ?thesis
    by (auto simp: list_all_iff)
qed




text \<open>
  \<^bold>\<open>C4, as stated, fails.\<close>  The frame \<open>pd.DataFrame([[1, 2], [3, 4]])\<close> has the integers 0
  and 1 as column labels and numbers as cells.  Both of its columns pass the first loop;
  then \<open>col.lower()\<close> in the list comprehension, which no \<open>try\<close> statement encloses,
  raises \<open>AttributeError\<close>, and \<open>transform\<close> raises it to its caller.
\<close>

theorem transform_raises_on_integer_labels_counterexample:
  "output_frame (transform example_pandas 0 (initial_state unnamed_columns)) =
     Inl (AttributeError (quoted ''int'' @ '' object has no attribute '' @ quoted ''lower''))"
  by code_simp

text \<open>
  \<^bold>\<open>C4, amended.\<close>  \<open>transform\<close> returns a reference and a state, and raises nothing,
  exactly on the tables whose column labels are all strings, whatever the cells are and
  whatever the conversions in the two loops raise.  On an empty such table (no rows, or no
  columns) the returned table equals the input, and each of the five steps leaves it as
  it is.
\<close>

theorem transform_total_on_string_labels:
  "((\<exists>r st'. transform pd df st = Inr (r, st')) \<longleftrightarrow> string_labels (heap st df)) \<and>
   (\<forall>r st'. transform pd df st = Inr (r, st') \<and>
        empty_frame (heap st df) \<and> rectangular (heap st df) \<longrightarrow>
      heap st' r = heap st df \<and>
      drop_duplicates (heap st df) = heap st df \<and>
      replace (Str ''?'') NA (heap st df) = heap st df \<and>
      dropna (heap st df) = heap st df \<and>
      numeric_coercion pd (heap st df) = heap st df \<and>
      date_normalization pd (heap st df) = heap st df)"
proof -
  have "heap st' r = heap st df"
    if "transform pd df st = Inr (r, st')" "empty_frame (heap st df)" "rectangular (heap st df)"
    for r st'
    using transform_result(3)[OF that(1)] that(2,3) by (simp add: cleaned_empty)
  then show ?thesis
    using transform_Inr_iff[of pd df st] by (auto simp: empty_steps)
qed

theorem transform_total_on_string_labels_witness:
  "\<exists>r st'. transform example_pandas 0
       (initial_state \<lparr>columns = [Name ''age'', Name ''visit_date''], rows = []\<rparr>) = Inr (r, st') \<and>
     heap st' r = \<lparr>columns = [Name ''age'', Name ''visit_date''], rows = []\<rparr>"
proof -
  have sl: "string_labels (heap (initial_state
      \<lparr>columns = [Name ''age'', Name ''visit_date''], rows = []\<rparr>) 0)"
    by (simp add: string_labels_def)
  note t = transform_total_on_string_labels[of example_pandas 0
      "initial_state \<lparr>columns = [Name ''age'', Name ''visit_date''], rows = []\<rparr>"]
  from t sl obtain r st' where tr: "transform example_pandas 0
       (initial_state \<lparr>columns = [Name ''age'', Name ''visit_date''], rows = []\<rparr>) = Inr (r, st')"
    by blast
  from t tr show ?thesis
    by (auto simp: empty_frame_def rectangular_def)
qed

text \<open>
  \<^bold>\<open>C5.\<close> \<open>load\<close> never raises: whatever \<open>create_engine\<close> and \<open>to_sql\<close> do, \<open>load\<close> returns
  normally and leaves every frame as it was.  When opening the connection raises, or when
  writing the table raises, the exception's message is logged at level \<open>ERROR\<close>.  A run
  whose extraction and transformation return is not aborted by \<open>load\<close>: it returns
  normally whatever \<open>load\<close> met, and its last log line reports completion.
\<close>

theorem load_never_raises:
  "\<exists>st' w'. load self sv df st w = Inr (st', w') \<and> heap st' = heap st \<and>
     (\<forall>e. create_engine sv (db_uri self) = Inl e \<longrightarrow>
        w' = w \<and>
        logged st' = logged st @ [(INFO, ''Loading data into PostgreSQL...''),
          (ERROR, ''Failed to load data into PostgreSQL: '' @ str_error e)]) \<and>
     (\<forall>engine e w1. create_engine sv (db_uri self) = Inr engine \<and>
          to_sql sv (heap st df) (table_name self) engine w = (Some e, w1) \<longrightarrow>
        w' = w1 \<and>
        logged st' = logged st @ [(INFO, ''Loading data into PostgreSQL...''),
          (ERROR, ''Failed to load data into PostgreSQL: '' @ str_error e)]) \<and>
     (\<forall>raw st2 cleaned_df st3.
        extract_dataset self sv (logging INFO ''Starting ETL pipeline.'' st) = Inr (raw, st2) \<and>
        transform pd raw st2 = Inr (cleaned_df, st3) \<longrightarrow>
        (\<exists>st'' w''. run self pd sv st w = Inr (st'', w'') \<and>
           last (logged st'') = (INFO, ''ETL pipeline completed successfully.'')))"
proof -
  have L: "\<exists>st' w'. load self sv d s w = Inr (st', w')" for d and s :: "'a state"
    by (auto simp: load_def Let_def split: sum.splits prod.splits option.splits)
  have R: "\<exists>st'' w''. run self pd sv st w = Inr (st'', w'') \<and>
           last (logged st'') = (INFO, ''ETL pipeline completed successfully.'')"
    if "extract_dataset self sv (logging INFO ''Starting ETL pipeline.'' st) = Inr (raw, st2)"
      and t: "transform pd raw st2 = Inr (r, st3)" for raw st2 r st3
  proof -
    obtain st4 w4 where l: "load self sv r st3 w = Inr (st4, w4)" using L by blast
    show ?thesis using that l by (simp add: run_def Let_def logging_def)
  qed
  have R': "\<forall>raw st2 cleaned_df st3.
        extract_dataset self sv (logging INFO ''Starting ETL pipeline.'' st) = Inr (raw, st2) \<and>
        transform pd raw st2 = Inr (cleaned_df, st3) \<longrightarrow>
        (\<exists>st'' w''. run self pd sv st w = Inr (st'', w'') \<and>
           last (logged st'') = (INFO, ''ETL pipeline completed successfully.''))"
    using R by blast
  show ?thesis
    using R'
    by (cases "create_engine sv (db_uri self)";
        cases "to_sql sv (heap st df) (table_name self) (projr (create_engine sv (db_uri self))) w";
        cases "fst (to_sql sv (heap st df) (table_name self) (projr (create_engine sv (db_uri self))) w)")
       (auto simp: load_def Let_def logging_def)
qed

theorem load_never_raises_witness:
  "(\<exists>st' w'. load main_etl unreachable_database 0 (initial_state sample_data) () = Inr (st', w') \<and>
      logged st' = [(INFO, ''Loading data into PostgreSQL...''),
                    (ERROR, ''Failed to load data into PostgreSQL: connection refused'')]) \<and>
   (\<exists>st'' w''. run main_etl example_pandas unreachable_database (initial_state sample_data) () = Inr (st'', w'') \<and>
      last (logged st'') = (INFO, ''ETL pipeline completed successfully.''))"
proof -
  have ce: "create_engine unreachable_database (db_uri main_etl) = Inl (OtherException ''connection refused'')"
    by (simp add: unreachable_database_def)
  obtain raw st2 where ex: "extract_dataset main_etl unreachable_database
        (logging INFO ''Starting ETL pipeline.'' (initial_state sample_data)) = Inr (raw, st2)"
    and fr: "heap st2 raw = sample_data"
    by (simp add: extract_dataset_def unreachable_database_def Let_def alloc_def logging_def)
  have "string_labels (heap st2 raw)" unfolding fr by code_simp
  then obtain r st3 where tr: "transform example_pandas raw st2 = Inr (r, st3)"
    using transform_Inr_iff[of example_pandas raw st2] by blast
  show ?thesis
    using load_never_raises[of main_etl unreachable_database 0 "initial_state sample_data" "()" example_pandas]
      ce ex tr
    by auto
qed

text \<open>
  \<^bold>\<open>C6.\<close> \<open>transform\<close> does not change its argument: whenever it returns, the frame behind
  the caller's reference, and every other frame that existed before the call, is the same
  after the call, and the returned reference is none of the references that existed
  before.  The in-place \<open>replace\<close> and the column assignments act on frames that
  \<open>drop_duplicates\<close> and \<open>dropna\<close> created during the call.  \<open>transform\<close> returns whenever
  the labels are strings.
\<close>

theorem transform_does_not_mutate_argument:
  "(string_labels (heap st df) \<longrightarrow> (\<exists>r st'. transform pd df st = Inr (r, st'))) \<and>
   (\<forall>r st'. transform pd df st = Inr (r, st') \<longrightarrow>
     (df < next_id st \<longrightarrow> heap st' df = heap st df \<and> r \<noteq> df) \<and>
     (\<forall>a < next_id st. heap st' a = heap st a \<and> r \<noteq> a))"
proof -
  have "\<forall>a < next_id st. heap st' a = heap st a \<and> r \<noteq> a"
    if tr: "transform pd df st = Inr (r, st')" for r st'
    using transform_result(2)[OF tr] transform_result(4)[OF tr] by simp
  then show ?thesis
    using transform_returns_on_names[of st df pd] by blast
qed

theorem transform_does_not_mutate_argument_witness:
  "\<exists>r st'. transform example_pandas 0 (initial_state sample_data) = Inr (r, st') \<and>
     heap st' 0 = sample_data \<and> r \<noteq> 0"
proof -
  have sl: "string_labels (heap (initial_state sample_data) 0)" by (simp, code_simp)
  note t = transform_does_not_mutate_argument[of "initial_state sample_data" 0 example_pandas]
  from t sl obtain r st' where
    tr: "transform example_pandas 0 (initial_state sample_data) = Inr (r, st')" by blast
  from t tr show ?thesis by auto
qed



text \<open>
  \<^bold>\<open>C8, as stated, fails.\<close>  A column named \<open>date\<close> whose only value is the text \<open>"bad"\<close>
  passes the drop-missing step (the value is not missing), is left alone by numeric
  coercion, and is turned into a missing marker by date normalization: the returned table
  has a missing marker in a date-named column.
\<close>

theorem date_column_keeps_missing_marker_counterexample:
  "is_date_col (Name ''date'') \<and>
   output_frame (transform example_pandas 0
      (initial_state \<lparr>columns = [Name ''date''], rows = [[Str ''bad'']]\<rparr>))
    = Inr \<lparr>columns = [Name ''date''], rows = [[NA]]\<rparr>"
  by code_simp

text \<open>
  \<^bold>\<open>C8, amended.\<close>  In the table \<open>transform\<close> returns for a table with unique labels,
  a date-named column whose conversion returned holds, at each row, the normalized date
  string of the value \<open>pd.to_datetime\<close> read there, and a missing marker exactly where it
  could not read the value; such markers stay in the output, since rows with missing
  values are dropped before dates are normalized.  \<open>transform\<close> returns whenever the
  labels are strings.
\<close>

theorem date_columns_hold_dates_or_missing:
  assumes "well_formed (heap st df)" and "j < length (columns (heap st df))"
    and "is_date_col (columns (heap st df) ! j)"
    and "to_datetime pd (column_at j (numeric_coercion pd (drop_missing (heap st df)))) = Inr ds"
    and "length ds = length (column_at j (numeric_coercion pd (drop_missing (heap st df))))"
  shows "(string_labels (heap st df) \<longrightarrow> (\<exists>r st'. transform pd df st = Inr (r, st'))) \<and>
   (\<forall>r st'. transform pd df st = Inr (r, st') \<longrightarrow>
     length (column_at j (heap st' r)) = length ds \<and>
     (\<forall>i < length ds.
        (ds ! i = None \<longleftrightarrow> column_at j (heap st' r) ! i = NA) \<and>
        (\<forall>d. ds ! i = Some d \<longrightarrow> column_at j (heap st' r) ! i = Str (strftime d))))"
proof -
  let ?t = "heap st df"
  let ?t4 = "numeric_coercion pd (drop_missing ?t)"
  have wf4: "well_formed ?t4"
    using numeric_coercion_columns(1)[OF well_formed_drop_missing[OF assms(1)]] .
  have col: "column_at j (heap st' r) = map strftime_cell ds"
    if tr: "transform pd df st = Inr (r, st')" for r st'
  proof -
    have "column_at j (heap st' r) = normalized pd (column_at j ?t4)"
      using date_normalization_columns(3)[OF wf4, of j pd] assms(2,3)
      by (simp add: transform_result(3)[OF tr] cleaned_def)
    then show ?thesis
      using assms(4,5) by (simp add: normalized_def strftime_cell_eq)
  qed
  have cells: "\<forall>i < length ds. (ds ! i = None \<longleftrightarrow> map strftime_cell ds ! i = NA) \<and>
        (\<forall>d. ds ! i = Some d \<longrightarrow> map strftime_cell ds ! i = Str (strftime d))"
  proof (intro allI impI)
    fix i assume "i < length ds"
    then show "(ds ! i = None \<longleftrightarrow> map strftime_cell ds ! i = NA) \<and>
        (\<forall>d. ds ! i = Some d \<longrightarrow> map strftime_cell ds ! i = Str (strftime d))"
      by (cases "ds ! i") (simp_all add: strftime_cell_def)
  qed
  have R: "string_labels ?t \<longrightarrow> (\<exists>r st'. transform pd df st = Inr (r, st'))"
    by (rule transform_returns_on_names)
  have Q: "\<forall>r st'. transform pd df st = Inr (r, st') \<longrightarrow>
     length (column_at j (heap st' r)) = length ds \<and>
     (\<forall>i < length ds.
        (ds ! i = None \<longleftrightarrow> column_at j (heap st' r) ! i = NA) \<and>
        (\<forall>d. ds ! i = Some d \<longrightarrow> column_at j (heap st' r) ! i = Str (strftime d)))"
  proof (intro allI impI)
    fix r st' assume tr: "transform pd df st = Inr (r, st')"
    from cells show "length (column_at j (heap st' r)) = length ds \<and>
     (\<forall>i < length ds.
        (ds ! i = None \<longleftrightarrow> column_at j (heap st' r) ! i = NA) \<and>
        (\<forall>d. ds ! i = Some d \<longrightarrow> column_at j (heap st' r) ! i = Str (strftime d)))"
      by (simp only: col[OF tr] length_map simp_thms)
  qed
  from R Q show ?thesis by (rule conjI)
qed

theorem date_columns_hold_dates_or_missing_witness:
  "\<exists>r st'. transform example_pandas 0 (initial_state visits_data) = Inr (r, st') \<and>
      length (column_at 0 (heap st' r)) = 2 \<and>
      column_at 0 (heap st' r) ! 0 = Str ''2020-01-15'' \<and>
      column_at 0 (heap st' r) ! 1 = NA"
proof -
  have wf: "well_formed (heap (initial_state visits_data) 0)" by (simp, code_simp)
  have sl: "string_labels (heap (initial_state visits_data) 0)" by (simp, code_simp)
  have j0: "0 < length (columns (heap (initial_state visits_data) 0))" by (simp add: visits_data_def)
  have d0: "is_date_col (columns (heap (initial_state visits_data) 0) ! 0)" by (simp, code_simp)
  have p0: "to_datetime example_pandas (column_at 0 (numeric_coercion example_pandas
        (drop_missing (heap (initial_state visits_data) 0))))
      = Inr [Some \<lparr>year = 2020, month = 1, day = 15\<rparr>, None]" by (simp, code_simp)
  have l0: "length [Some \<lparr>year = 2020, month = 1, day = 15\<rparr>, None] =
      length (column_at 0 (numeric_coercion example_pandas (drop_missing (heap (initial_state visits_data) 0))))"
    by (simp, code_simp)
  have s: "strftime \<lparr>year = 2020, month = 1, day = 15\<rparr> = ''2020-01-15''" by code_simp
  note t = date_columns_hold_dates_or_missing[OF wf j0 d0 p0 l0]
  from t sl obtain r st' where tr: "transform example_pandas 0 (initial_state visits_data) = Inr (r, st')"
    by (simp only: heap_initial_state) blast
  note q = t[THEN conjunct2, rule_format, OF tr]
  have len: "length (column_at 0 (heap st' r)) = length [Some \<lparr>year = 2020, month = 1, day = 15\<rparr>, None]"
    and cells: "\<forall>i<length [Some \<lparr>year = 2020, month = 1, day = 15\<rparr>, None].
        ([Some \<lparr>year = 2020, month = 1, day = 15\<rparr>, None] ! i = None \<longleftrightarrow> column_at 0 (heap st' r) ! i = NA) \<and>
        (\<forall>d. [Some \<lparr>year = 2020, month = 1, day = 15\<rparr>, None] ! i = Some d
            \<longrightarrow> column_at 0 (heap st' r) ! i = Str (strftime d))"
    using q by blast+
  from cells[rule_format, of 0] have c0: "column_at 0 (heap st' r) ! 0 = Str ''2020-01-15''"
    by (simp add: s del: One_nat_def)
  from cells[rule_format, of 1] have c1: "column_at 0 (heap st' r) ! 1 = NA"
    by simp
  from tr len c0 c1 show ?thesis by auto
qed

text \<open>
  \<^bold>\<open>C9.\<close> Deduplication is idempotent: \<open>drop_duplicates\<close> applied to its own result changes
  nothing, and on a table without two equal rows it removes no row, so that \<open>transform\<close>,
  whenever it returns, has logged that it removed 0 duplicate rows.  \<open>transform\<close> returns
  whenever the labels are strings.
\<close>

theorem deduplication_idempotent:
  "drop_duplicates (drop_duplicates (heap st df)) = drop_duplicates (heap st df) \<and>
   (distinct (rows (heap st df)) \<longrightarrow>
      drop_duplicates (heap st df) = heap st df \<and>
      (\<forall>r st'. transform pd df st = Inr (r, st') \<longrightarrow>
         logged st' ! Suc (length (logged st)) = (INFO, ''Removed 0 duplicate rows.''))) \<and>
   (string_labels (heap st df) \<longrightarrow> (\<exists>r st'. transform pd df st = Inr (r, st')))"
proof -
  have z: "str_int 0 = ''0''" by code_simp
  have "logged st' ! Suc (length (logged st)) = (INFO, ''Removed 0 duplicate rows.'')"
    if "distinct (rows (heap st df))" "transform pd df st = Inr (r, st')" for r st'
    using transform_result(5)[OF that(2)] that(1)
    by (simp add: drop_duplicates_distinct_id transform_log_def z nth_append)
  then show ?thesis
    using transform_returns_on_names[of st df pd]
    by (simp add: drop_duplicates_idem drop_duplicates_distinct_id)
qed

theorem deduplication_idempotent_witness:
  "distinct (rows sample_data) \<and> drop_duplicates sample_data = sample_data \<and>
   (\<exists>r st'. transform example_pandas 0 (initial_state sample_data) = Inr (r, st') \<and>
      logged st' ! 1 = (INFO, ''Removed 0 duplicate rows.''))"
proof -
  have a: "distinct (rows sample_data)" by code_simp
  have sl: "string_labels sample_data" by code_simp
  note t = deduplication_idempotent[of "initial_state sample_data" 0 example_pandas]
  from t sl obtain r st' where
    tr: "transform example_pandas 0 (initial_state sample_data) = Inr (r, st')" by auto
  from t tr a show ?thesis by auto
qed

text \<open>
  \<^bold>\<open>C10.\<close> \<open>transform\<close> keeps the column structure: for every input table, the table it
  returns has the column labels of the input, in the same order.  \<open>transform\<close> returns
  whenever the labels are strings.
\<close>

theorem transform_preserves_columns:
  "(string_labels (heap st df) \<longrightarrow> (\<exists>r st'. transform pd df st = Inr (r, st'))) \<and>
   (\<forall>r st'. transform pd df st = Inr (r, st') \<longrightarrow> columns (heap st' r) = columns (heap st df))"
  using transform_returns_on_names[of st df pd]
  by (auto dest!: transform_result(3))

theorem transform_preserves_columns_witness:
  "\<exists>r st'. transform example_pandas 0 (initial_state sample_data) = Inr (r, st') \<and>
     columns (heap st' r) = [Name ''age'', Name ''sex'', Name ''cp'', Name ''chol'']"
proof -
  have sl: "string_labels (heap (initial_state sample_data) 0)" by (simp, code_simp)
  note t = transform_preserves_columns[of "initial_state sample_data" 0 example_pandas]
  from t sl obtain r st' where
    tr: "transform example_pandas 0 (initial_state sample_data) = Inr (r, st')" by blast
  from t tr show ?thesis
    by (auto simp: sample_data_def)
qed

end
